theory Spec2Isabelle
  imports Complex_Main
begin

section \<open>stonkAlerts: the drop detector, the notifier and the run\<close>

text \<open>
  A shallow embedding of \<^verbatim>\<open>src/stonkAlerts.py\<close>.

  A closing price is a NumPy \<^verbatim>\<open>float64\<close>, an IEEE-754 double. A double is written
  here as the rational it denotes, and every operation of lines 115 and 119 (the
  subtraction, the division, the multiplication by 100, and the steps of
  \<^verbatim>\<open>round\<close>) gives the double nearest to the exact result, a tie going to the even
  significand, with the subnormal numbers, the overflow to an infinity, the negative
  zero and NaN. A division by zero raises nothing on this type (NumPy prints a warning
  and yields an infinity or a NaN). Comparisons are exact. Exceptions are values of
  \<open>exn\<close>, and a computation that may raise returns \<open>exn + 'a\<close> with \<open>Inl\<close> for the
  exception. Effects (network calls, log lines, prints) are recorded in a list of
  events returned beside the result. A fetched series holds numbers only: a missing
  price (NaN) is not modelled.
\<close>

subsection \<open>Exceptions, events and the outside world\<close>

datatype exn = IndexError | AssertionError | OtherError string

datatype level = DEBUG | ERROR | CRITICAL

datatype event =
    Fetch int string
  | Probe
  | Post string string string
  | Log level
  | Print

text \<open>
  A loaded configuration, with every key of \<^verbatim>\<open>config.json\<close> present and of its
  type (a file that parses but lacks a key is not modelled).
\<close>

record config =
  cfg_tickers :: "string list"
  cfg_recentPeak :: int
  cfg_recentTrend :: int
  cfg_percentDropped :: rat
  cfg_telegramBotId :: string
  cfg_telegramChatId :: string
  cfg_loggingEnabled :: bool
  cfg_logFileName :: "string option"

text \<open>
  What the run reads from outside: the outcome of loading \<^verbatim>\<open>config.json\<close>, of
  setting up the log file, of fetching the closing prices of a ticker for a look-back
  of so many days (oldest first), of the probe of the provider (the truth value of the
  object that \<^verbatim>\<open>assert\<close> tests), and of the HTTPS POST (the status code).
  Within one run the provider answers the same request the same way.
\<close>

record world =
  config_file :: "exn + config"
  logging_setup :: "string option \<Rightarrow> exn + unit"
  history :: "int \<Rightarrow> string \<Rightarrow> exn + rat list"
  probe :: "exn + bool"
  post :: "string \<Rightarrow> string \<Rightarrow> string \<Rightarrow> exn + int"

definition OK :: int where
  "OK = 200"

definition TODAY :: int where
  "TODAY = -1"

text \<open>A log call writes a line only when logging is enabled.\<close>

definition log :: "bool \<Rightarrow> level \<Rightarrow> event list" where
  "log debug l = (if debug then [Log l] else [])"

subsection \<open>Indexing a price series\<close>

text \<open>
  \<^verbatim>\<open>history.Close[i]\<close> with an integer on a date-indexed series is positional: a
  negative index counts from the end, and a position outside the series raises.
\<close>

definition get :: "'a list \<Rightarrow> int \<Rightarrow> exn + 'a" where
  "get series i =
     (if 0 \<le> i then
        (if i < int (length series) then Inr (series ! nat i) else Inl IndexError)
      else
        (if - i \<le> int (length series) then Inr (series ! nat (int (length series) + i))
         else Inl IndexError))"

subsection \<open>Doubles\<close>

text \<open>
  The value of a floating-point operation: a finite number other than the negative
  zero (\<open>Fin 0\<close> is the positive zero), the negative zero, an infinity, or NaN.
\<close>

datatype fnum = Fin rat | NZero | PInf | NInf | NaN

text \<open>The number of binary digits of a natural number.\<close>

fun bits :: "nat \<Rightarrow> nat" where
  "bits n = (if n = 0 then 0 else Suc (bits (n div 2)))"

declare bits.simps [simp del]

text \<open>
  The binary exponent of a non-zero number: the \<open>e\<close> with \<open>2^e \<le> |x| < 2^(e+1)\<close>.
\<close>

definition binade :: "rat \<Rightarrow> int" where
  "binade x =
     (if 1 \<le> \<bar>x\<bar> then int (bits (nat \<lfloor>\<bar>x\<bar>\<rfloor>)) - 1
      else - int (bits (nat (\<lceil>1 / \<bar>x\<bar>\<rceil> - 1))))"

text \<open>Rounding to the nearest integer, a tie going to the even neighbour.\<close>

definition round_half_even :: "rat \<Rightarrow> int" where
  "round_half_even y =
     (let f = \<lfloor>y\<rfloor>; d = y - of_int f
      in if d < 1 / 2 then f else if 1 / 2 < d then f + 1
         else if even f then f else f + 1)"

text \<open>
  The spacing of the doubles around \<open>x\<close>: a significand of 53 bits, and the least
  exponent \<open>-1022\<close> below which the numbers are subnormal.
\<close>

definition quantum :: "rat \<Rightarrow> rat" where
  "quantum x = power_int 2 (max (binade x) (- 1022) - 52)"

definition nearest :: "rat \<Rightarrow> rat" where
  "nearest x = of_int (round_half_even (x / quantum x)) * quantum x"

text \<open>
  The double that an operation with the exact result \<open>x\<close> returns. A non-zero result
  that rounds to zero keeps its sign, and a result that rounds to \<open>2^1024\<close> or beyond
  is an infinity.
\<close>

definition rnd :: "rat \<Rightarrow> fnum" where
  "rnd x =
     (if x = 0 then Fin 0
      else if nearest x = 0 then (if x < 0 then NZero else Fin 0)
      else if 1024 \<le> binade (nearest x) then (if x < 0 then NInf else PInf)
      else Fin (nearest x))"

definition is_double :: "rat \<Rightarrow> bool" where
  "is_double x = (rnd x = Fin x)"

text \<open>
  The operations of line 115, on the values they meet there: the difference of two
  prices, a quotient by a price, a product with the literal 100.
\<close>

definition fsub :: "rat \<Rightarrow> rat \<Rightarrow> fnum" where
  "fsub a b = rnd (a - b)"

fun fdiv :: "fnum \<Rightarrow> rat \<Rightarrow> fnum" where
  "fdiv (Fin a) b =
     (if b = 0 then (if a = 0 then NaN else if a < 0 then NInf else PInf)
      else if a = 0 then (if b < 0 then NZero else Fin 0)
      else rnd (a / b))"
| "fdiv NZero b = (if b = 0 then NaN else if b < 0 then Fin 0 else NZero)"
| "fdiv PInf b = (if b < 0 then NInf else PInf)"
| "fdiv NInf b = (if b < 0 then PInf else NInf)"
| "fdiv NaN b = NaN"

fun fmul :: "fnum \<Rightarrow> rat \<Rightarrow> fnum" where
  "fmul (Fin a) c =
     (if a = 0 then (if c < 0 then NZero else Fin 0)
      else if c = 0 then (if a < 0 then NZero else Fin 0)
      else rnd (a * c))"
| "fmul NZero c = (if c < 0 then Fin 0 else NZero)"
| "fmul PInf c = (if c = 0 then NaN else if 0 < c then PInf else NInf)"
| "fmul NInf c = (if c = 0 then NaN else if 0 < c then NInf else PInf)"
| "fmul NaN c = NaN"

fun flt :: "fnum \<Rightarrow> rat \<Rightarrow> bool" where
  "flt (Fin a) b = (a < b)"
| "flt NZero b = (0 < b)"
| "flt NInf b = True"
| "flt PInf b = False"
| "flt NaN b = False"

fun fneg :: "fnum \<Rightarrow> fnum" where
  "fneg (Fin a) = (if a = 0 then NZero else Fin (- a))"
| "fneg NZero = Fin 0"
| "fneg PInf = NInf"
| "fneg NInf = PInf"
| "fneg NaN = NaN"

text \<open>
  \<^verbatim>\<open>round(x, 2)\<close> on a \<^verbatim>\<open>float64\<close> is NumPy's: the number is multiplied by 100,
  rounded to the nearest whole number (a tie to the even one, a negative number that
  rounds to zero giving the negative zero) and divided by 100, each step in doubles.
\<close>

fun rint :: "fnum \<Rightarrow> fnum" where
  "rint (Fin a) =
     (if round_half_even a = 0 then (if a < 0 then NZero else Fin 0)
      else Fin (of_int (round_half_even a)))"
| "rint NZero = NZero"
| "rint PInf = PInf"
| "rint NInf = NInf"
| "rint NaN = NaN"

definition round2 :: "fnum \<Rightarrow> fnum" where
  "round2 x = fdiv (rint (fmul x 100)) 100"

subsection \<open>Printing a number\<close>

definition digit :: "nat \<Rightarrow> char" where
  "digit d = ''0123456789'' ! d"

fun dec :: "nat \<Rightarrow> string" where
  "dec n = (if n < 10 then [digit n] else dec (n div 10) @ [digit (n mod 10)])"

declare dec.simps [simp del]

text \<open>
  The text of a number of hundredths: the integer part, a point, and the decimals
  without trailing zeros, at least one.
\<close>

definition str_hundredths :: "nat \<Rightarrow> string" where
  "str_hundredths h =
     dec (h div 100) @ ''.'' @
     (if h mod 100 = 0 then ''0''
      else if h mod 10 = 0 then [digit (h mod 100 div 10)]
      else [digit (h mod 100 div 10), digit (h mod 10)])"

text \<open>
  \<^verbatim>\<open>format\<close> writes a double with the fewest digits that read back as the same
  double. For the double nearest to a number of hundredths (below \<open>10^13\<close>, where the
  notation is positional and the doubles are far finer than a hundredth) these are the
  digits of that number of hundredths, which is what \<^verbatim>\<open>round(x, 2)\<close> returns; the
  text of any other double is not modelled. The negative zero is written \<^verbatim>\<open>-0.0\<close>.
\<close>

fun str :: "fnum \<Rightarrow> string" where
  "str (Fin x) =
     (if x < 0 then ''-'' @ str_hundredths (nat (round_half_even (- x * 100)))
      else str_hundredths (nat (round_half_even (x * 100))))"
| "str NZero = ''-0.0''"
| "str PInf = ''inf''"
| "str NInf = ''-inf''"
| "str NaN = ''nan''"

subsection \<open>The drop detector\<close>

text \<open>
  The search for the highest price: \<^verbatim>\<open>maxPrice\<close> starts at 0 and takes every
  price that is greater.
\<close>

fun max_price :: "rat list \<Rightarrow> rat \<Rightarrow> rat" where
  "max_price [] maxPrice = maxPrice"
| "max_price (price # rest) maxPrice =
     max_price rest (if price > maxPrice then price else maxPrice)"

text \<open>
  Line 115, \<^verbatim>\<open>((priceToday - maxPrice)/maxPrice) * 100\<close>, operation by operation; and
  the line that lines 118 and 119 append, with the number
  \<^verbatim>\<open>round(-percentDropped, 2)\<close> as \<^verbatim>\<open>format\<close> writes it.
\<close>

definition percent_dropped :: "rat \<Rightarrow> rat \<Rightarrow> fnum" where
  "percent_dropped priceToday maxPrice =
     fmul (fdiv (fsub priceToday maxPrice) maxPrice) 100"

definition alert_line :: "string \<Rightarrow> fnum \<Rightarrow> string" where
  "alert_line ticker percentDropped =
     ticker @ '' dropped '' @ str (round2 (fneg percentDropped)) @ ''%'' @ [CHR 0x0A]"

text \<open>
  One pass of the loop body for one ticker: the text it appends to the message
  (nothing when the ticker is skipped by \<^verbatim>\<open>continue\<close>), or the exception that
  leaves the loop; and the events of the pass.
\<close>

definition ticker_body ::
  "world \<Rightarrow> int \<Rightarrow> int \<Rightarrow> rat \<Rightarrow> bool \<Rightarrow> string \<Rightarrow> (exn + string) \<times> event list" where
  "ticker_body w recentPeak recentTrend precentDroppedThreshold debug ticker =
     (let tr0 = log debug DEBUG @ [Fetch recentPeak ticker] in
      case history w recentPeak ticker of
        Inl e \<Rightarrow> (Inr [], tr0 @ log debug ERROR)
      | Inr close \<Rightarrow>
          (case get close (- recentTrend) of
             Inl e \<Rightarrow> (Inl e, tr0)
           | Inr priceTrendAgo \<Rightarrow>
               (case get close TODAY of
                  Inl e \<Rightarrow> (Inl e, tr0)
                | Inr priceNow \<Rightarrow>
                    if priceTrendAgo < priceNow then (Inr [], tr0 @ log debug DEBUG)
                    else
                      (case get close (- 1) of
                         Inl e \<Rightarrow> (Inl e, tr0)
                       | Inr priceToday \<Rightarrow>
                           (let maxPrice = max_price close 0;
                                percentDropped = percent_dropped priceToday maxPrice;
                                tr1 = tr0 @ log debug DEBUG @ log debug DEBUG
                            in if flt percentDropped (- precentDroppedThreshold)
                               then (Inr (alert_line ticker percentDropped), tr1)
                               else (Inr [], tr1))))))"

fun tickers_loop ::
  "world \<Rightarrow> int \<Rightarrow> int \<Rightarrow> rat \<Rightarrow> bool \<Rightarrow> string list \<Rightarrow> string \<Rightarrow> event list
     \<Rightarrow> (exn + string) \<times> event list" where
  "tickers_loop w recentPeak recentTrend th debug [] message tr = (Inr message, tr)"
| "tickers_loop w recentPeak recentTrend th debug (ticker # rest) message tr =
     (case ticker_body w recentPeak recentTrend th debug ticker of
        (Inl e, ev) \<Rightarrow> (Inl e, tr @ ev)
      | (Inr s, ev) \<Rightarrow>
          tickers_loop w recentPeak recentTrend th debug rest (message @ s) (tr @ ev))"

definition create_ticker_message ::
  "world \<Rightarrow> string list \<Rightarrow> int \<Rightarrow> int \<Rightarrow> rat \<Rightarrow> bool \<Rightarrow> (exn + string) \<times> event list" where
  "create_ticker_message w tickers recentPeak recentTrend precentDroppedThreshold debug =
     tickers_loop w recentPeak recentTrend precentDroppedThreshold debug tickers []
       (log debug DEBUG)"

subsection \<open>The notifier\<close>

definition send_message ::
  "world \<Rightarrow> string \<Rightarrow> string \<Rightarrow> string \<Rightarrow> bool \<Rightarrow> (exn + bool) \<times> event list" where
  "send_message w botID chatID message debug =
     (let tr0 = log debug DEBUG @ [Post botID chatID message] in
      case post w botID chatID message of
        Inr status_code \<Rightarrow> (Inr (if status_code = OK then True else False), tr0)
      | Inl e \<Rightarrow> (Inr False, tr0 @ log debug ERROR))"

subsection \<open>The run\<close>

text \<open>
  The text sent when the probe fails ends with the \<^verbatim>\<open>repr\<close> of the exception; an
  exception of the outside world carries that text.
\<close>

definition probe_text :: "exn \<Rightarrow> string" where
  "probe_text e = ''Failed to reach Yahoo Finance API. Error: '' @
     (case e of IndexError \<Rightarrow> ''IndexError()''
      | AssertionError \<Rightarrow>
          ''AssertionError('' @ [CHR 0x27] @ ''Error interacting with API'' @ [CHR 0x27] @ '')''
      | OtherError s \<Rightarrow> s)"

text \<open>
  \<^verbatim>\<open>main\<close> from the validation of the configuration on. The \<^verbatim>\<open>assert\<close>
  statements are executed (the interpreter runs without \<^verbatim>\<open>-O\<close>); the one that
  validates the configuration stands outside every \<^verbatim>\<open>try\<close>.
\<close>

definition after_config :: "world \<Rightarrow> config \<Rightarrow> event list \<Rightarrow> (exn + int) \<times> event list" where
  "after_config w c tr =
     (if \<not> (cfg_recentPeak c \<ge> cfg_recentTrend c) then (Inl AssertionError, tr)
      else
        (case create_ticker_message w (cfg_tickers c) (cfg_recentPeak c) (cfg_recentTrend c)
                (cfg_percentDropped c) (cfg_loggingEnabled c) of
           (Inl e, ev) \<Rightarrow> (Inl e, tr @ ev)
         | (Inr message, ev) \<Rightarrow>
             if message \<noteq> [] then
               (case send_message w (cfg_telegramBotId c) (cfg_telegramChatId c) message
                       (cfg_loggingEnabled c) of
                  (Inl e, ev') \<Rightarrow> (Inl e, tr @ ev @ log (cfg_loggingEnabled c) DEBUG @ ev')
                | (Inr sent, ev') \<Rightarrow>
                    (Inr (if sent then 0 else - 1),
                     tr @ ev @ log (cfg_loggingEnabled c) DEBUG @ ev'))
             else
               (case (case probe w of Inl e \<Rightarrow> Some e
                      | Inr b \<Rightarrow> if b then None else Some AssertionError) of
                  None \<Rightarrow> (Inr 0, tr @ ev @ [Probe])
                | Some e \<Rightarrow>
                    (case send_message w (cfg_telegramBotId c) (cfg_telegramChatId c)
                            (probe_text e) (cfg_loggingEnabled c) of
                       (Inl e', ev') \<Rightarrow>
                         (Inl e', tr @ ev @ [Probe] @ log (cfg_loggingEnabled c) CRITICAL @ ev')
                     | (Inr sent, ev') \<Rightarrow>
                         (Inr (- 1),
                          tr @ ev @ [Probe] @ log (cfg_loggingEnabled c) CRITICAL @ ev')))))"

definition main :: "world \<Rightarrow> (exn + int) \<times> event list" where
  "main w =
     (case config_file w of
        Inl e \<Rightarrow> (Inr (- 1), [Print])
      | Inr c \<Rightarrow>
          if cfg_loggingEnabled c then
            (case logging_setup w (cfg_logFileName c) of
               Inl e \<Rightarrow> (Inr (- 1), [Print])
             | Inr u \<Rightarrow> after_config w c [])
          else after_config w c [])"

text \<open>
  The script's last line calls \<^verbatim>\<open>main()\<close> and drops what it returns: the
  interpreter ends with status 0 when the call returns and with status 1 when an
  exception leaves it.
\<close>

definition exit_status :: "world \<Rightarrow> int" where
  "exit_status w = (case fst (main w) of Inl e \<Rightarrow> 1 | Inr r \<Rightarrow> 0)"

subsection \<open>Reading the events\<close>

fun is_network :: "event \<Rightarrow> bool" where
  "is_network (Fetch d t) = True"
| "is_network Probe = True"
| "is_network (Post b c m) = True"
| "is_network (Log l) = False"
| "is_network Print = False"

fun is_post :: "event \<Rightarrow> bool" where
  "is_post (Post b c m) = True"
| "is_post (Fetch d t) = False"
| "is_post Probe = False"
| "is_post (Log l) = False"
| "is_post Print = False"

subsection \<open>Reading a number\<close>

text \<open>
  The whole number of hundredths that \<^verbatim>\<open>round(x, 2)\<close> settles on (the scaled number
  rounded to a whole one); a number that is not positive (a zero of either sign, a
  negative number, minus infinity); and a finite number of magnitude at most a bound.
\<close>

definition hundredths :: "fnum \<Rightarrow> int" where
  "hundredths v = (case fmul v 100 of Fin y \<Rightarrow> round_half_even y | _ \<Rightarrow> 0)"

fun nonpos :: "fnum \<Rightarrow> bool" where
  "nonpos (Fin a) = (a \<le> 0)"
| "nonpos NZero = True"
| "nonpos NInf = True"
| "nonpos PInf = False"
| "nonpos NaN = False"

fun mag_le :: "fnum \<Rightarrow> rat \<Rightarrow> bool" where
  "mag_le (Fin a) B = (\<bar>a\<bar> \<le> B)"
| "mag_le NZero B = (0 \<le> B)"
| "mag_le PInf B = False"
| "mag_le NInf B = False"
| "mag_le NaN B = False"

subsection \<open>The rule of the specification, for comparison\<close>

text \<open>
  The specification's wording of the rule, on a fetched series: the sample
  \<open>recentTrend\<close>-th from last is not below the last one, and the drawdown from the
  highest price is below minus the threshold.
\<close>

definition spec_qualifies :: "world \<Rightarrow> int \<Rightarrow> int \<Rightarrow> rat \<Rightarrow> string \<Rightarrow> bool" where
  "spec_qualifies w recentPeak recentTrend th t =
     (case history w recentPeak t of
        Inl e \<Rightarrow> False
      | Inr close \<Rightarrow>
          \<not> (rev close ! (nat recentTrend - 1) < last close) \<and>
          flt (percent_dropped (last close) (max_price close 0)) (- th))"

definition spec_line :: "world \<Rightarrow> int \<Rightarrow> string \<Rightarrow> string" where
  "spec_line w recentPeak t =
     (case history w recentPeak t of
        Inl e \<Rightarrow> []
      | Inr close \<Rightarrow> alert_line t (percent_dropped (last close) (max_price close 0)))"

subsection \<open>A sample market and sample runs\<close>

text \<open>
  Closing prices, oldest first. \<open>EDGE\<close> has fallen by 7 percent of its highest price,
  \<open>HALF\<close> by 58.125 percent, \<open>FLAT\<close> not at all.
\<close>

definition market :: "int \<Rightarrow> string \<Rightarrow> exn + rat list" where
  "market d t =
     (if t = ''TICKER'' then Inr [100, 90, 80]
      else if t = ''UP'' then Inr [100, 50, 60]
      else if t = ''DIP'' then Inr [40, 32, 31]
      else if t = ''NEW'' then Inr [10, 9]
      else if t = ''EDGE'' then Inr [100, 93]
      else if t = ''HALF'' then Inr [160, 67]
      else if t = ''FLAT'' then Inr [80, 80]
      else Inl (OtherError ''symbol not found''))"

definition sample_config :: config where
  "sample_config =
     \<lparr> cfg_tickers = [''TICKER'', ''GONE'', ''UP'', ''DIP''],
       cfg_recentPeak = 30, cfg_recentTrend = 2, cfg_percentDropped = 15,
       cfg_telegramBotId = ''bot'', cfg_telegramChatId = ''chat'',
       cfg_loggingEnabled = True, cfg_logFileName = Some ''stonks.log'' \<rparr>"

definition sample_world :: world where
  "sample_world =
     \<lparr> config_file = Inr sample_config, logging_setup = (\<lambda>f. Inr ()),
       history = market, probe = Inr True, post = (\<lambda>b c m. Inr 200) \<rparr>"

text \<open>The same run with the messaging endpoint answering 500.\<close>

definition world_send_fails :: world where
  "world_send_fails = sample_world \<lparr> post := (\<lambda>b c m. Inr 500) \<rparr>"

text \<open>A configuration that breaks \<open>recentPeak \<ge> recentTrend\<close>.\<close>

definition world_bad_windows :: world where
  "world_bad_windows =
     sample_world \<lparr> config_file := Inr (sample_config \<lparr> cfg_recentPeak := 3, cfg_recentTrend := 5 \<rparr>) \<rparr>"

text \<open>No configuration file; and a log file that cannot be opened.\<close>

definition world_no_config :: world where
  "world_no_config = sample_world \<lparr> config_file := Inl (OtherError ''FileNotFoundError'') \<rparr>"

definition world_no_log :: world where
  "world_no_log = sample_world \<lparr> logging_setup := (\<lambda>f. Inl (OtherError ''PermissionError'')) \<rparr>"

text \<open>Nothing to report: a threshold no ticker reaches, with the provider up or down.\<close>

definition world_quiet :: world where
  "world_quiet =
     sample_world \<lparr> config_file := Inr (sample_config \<lparr> cfg_percentDropped := 50 \<rparr>) \<rparr>"

definition world_outage :: world where
  "world_outage = world_quiet \<lparr> probe := Inl (OtherError ''ConnectionError'') \<rparr>"

text \<open>A ticker listed two days ago, with a trend window of three days.\<close>

definition world_short_history :: world where
  "world_short_history =
     sample_world \<lparr> config_file := Inr (sample_config
        \<lparr> cfg_tickers := [''NEW'', ''TICKER''], cfg_recentTrend := 3 \<rparr>) \<rparr>"

subsection \<open>The stages of a run\<close>

text \<open>
  The configuration is loaded and, when logging is enabled, the log file is set up; and
  what the detector gives for that configuration.
\<close>

definition started :: "world \<Rightarrow> config \<Rightarrow> bool" where
  "started w c =
     (config_file w = Inr c \<and>
      (if cfg_loggingEnabled c then \<not> isl (logging_setup w (cfg_logFileName c)) else True))"

definition detected :: "world \<Rightarrow> config \<Rightarrow> exn + string" where
  "detected w c =
     fst (create_ticker_message w (cfg_tickers c) (cfg_recentPeak c) (cfg_recentTrend c)
            (cfg_percentDropped c) (cfg_loggingEnabled c))"

section \<open>Properties\<close>

subsection \<open>Indexing from the end\<close>

lemma get_from_end:
  assumes "1 \<le> k" and "k \<le> int (length xs)"
  shows "get xs (- k) = Inr (rev xs ! (nat k - 1))"
proof -
  have n: "nat k - 1 < length xs" using assms by linarith
  have "rev xs ! (nat k - 1) = xs ! (length xs - Suc (nat k - 1))"
    using n by (rule rev_nth)
  moreover have "length xs - Suc (nat k - 1) = nat (int (length xs) - k)"
    using assms by linarith
  ultimately show ?thesis
    using assms by (simp add: get_def)
qed

lemma get_today:
  assumes "xs \<noteq> []"
  shows "get xs (- 1) = Inr (last xs)"
proof -
  have "0 < length xs" using assms by simp
  then have "nat (int (length xs) - 1) = length xs - 1" by linarith
  moreover have "1 \<le> int (length xs)" using \<open>0 < length xs\<close> by linarith
  ultimately show ?thesis
    using assms by (simp add: get_def last_conv_nth)
qed

lemma get_short:
  assumes "int (length xs) < k"
  shows "get xs (- k) = Inl IndexError"
  using assms by (simp add: get_def)

subsection \<open>The highest price\<close>

lemma max_price_fold: "max_price xs m = fold max xs m"
proof (induction xs arbitrary: m)
  case Nil
  show ?case by simp
next
  case (Cons x xs)
  have "(if x > m then x else m) = max x m" by (simp add: max_def)
  then show ?case using Cons.IH by simp
qed

lemma max_price_Max: "max_price xs m = Max (set (m # xs))"
  by (simp only: max_price_fold Max.set_eq_fold)

lemma max_price_positive:
  assumes "\<exists>p\<in>set close. 0 < p"
  shows "max_price close 0 = Max (set close)"
proof -
  from assms obtain p where p: "p \<in> set close" "0 < p" by blast
  have ne: "set close \<noteq> {}" using p by auto
  have "p \<le> Max (set close)" using p by simp
  then have "0 \<le> Max (set close)" using p by linarith
  have "max_price close 0 = Max (insert 0 (set close))" by (simp add: max_price_Max)
  also have "\<dots> = max 0 (Max (set close))" using ne by (simp add: Max_insert)
  also have "\<dots> = Max (set close)" using \<open>0 \<le> Max (set close)\<close> by (simp add: max_def)
  finally show ?thesis .
qed

subsection \<open>The loop over the tickers\<close>

lemma loop_result_any_trace:
  "fst (tickers_loop w rp rt th d ts msg tr) = fst (tickers_loop w rp rt th d ts msg tr')"
proof (induction ts arbitrary: msg tr tr')
  case Nil
  show ?case by simp
next
  case (Cons t ts)
  show ?case
  proof (cases "ticker_body w rp rt th d t")
    case (Pair r ev)
    show ?thesis
    proof (cases r)
      case (Inl e)
      with Pair show ?thesis by simp
    next
      case (Inr s)
      with Pair show ?thesis using Cons.IH [of "msg @ s" "tr @ ev" "tr' @ ev"] by simp
    qed
  qed
qed

lemma loop_skip:
  assumes "fst (ticker_body w rp rt th d t) = Inr []"
  shows "fst (tickers_loop w rp rt th d (xs @ t # ys) msg tr)
       = fst (tickers_loop w rp rt th d (xs @ ys) msg tr)"
proof (induction xs arbitrary: msg tr)
  case Nil
  obtain ev where b: "ticker_body w rp rt th d t = (Inr [], ev)"
    using assms by (cases "ticker_body w rp rt th d t") simp
  show ?case using b loop_result_any_trace [of w rp rt th d ys msg "tr @ ev" tr] by simp
next
  case (Cons x xs)
  show ?case
  proof (cases "ticker_body w rp rt th d x")
    case (Pair r ev)
    show ?thesis
    proof (cases r)
      case (Inl e)
      with Pair show ?thesis by simp
    next
      case (Inr s)
      with Pair show ?thesis using Cons.IH [of "msg @ s" "tr @ ev"] by simp
    qed
  qed
qed

lemma create_skip:
  assumes "fst (ticker_body w rp rt th d t) = Inr []"
  shows "fst (create_ticker_message w (xs @ t # ys) rp rt th d)
       = fst (create_ticker_message w (xs @ ys) rp rt th d)"
  unfolding create_ticker_message_def using assms by (rule loop_skip)

subsection \<open>The binary exponent\<close>

text \<open>
  \<open>binade x\<close> is the exponent of the power of two at or below \<open>|x|\<close>; it is the
  only such exponent, and it grows with \<open>|x|\<close>.
\<close>

lemma bits_pos:
  assumes "0 < n"
  shows "2 ^ (bits n - 1) \<le> n \<and> n < 2 ^ bits n"
  using assms
proof (induction n rule: bits.induct)
  case (1 n)
  have b: "bits n = Suc (bits (n div 2))" using "1.prems" by (simp add: bits.simps [of n])
  show ?case
  proof (cases "n div 2 = 0")
    case True
    then have n: "n = 1" using "1.prems" by (simp add: div_eq_0_iff)
    have "bits n = 1" using b True by (simp add: bits.simps [of 0])
    then show ?thesis using n by simp
  next
    case False
    then have IH: "2 ^ (bits (n div 2) - 1) \<le> n div 2 \<and> n div 2 < 2 ^ bits (n div 2)"
      using "1.IH" "1.prems" by simp
    have p: "0 < bits (n div 2)" using False by (simp add: bits.simps [of "n div 2"])
    have "(2::nat) ^ bits (n div 2) = 2 * 2 ^ (bits (n div 2) - 1)"
      using p by (cases "bits (n div 2)") simp_all
    then have lo: "(2::nat) ^ (bits n - 1) \<le> n" using IH b by (simp; linarith)
    have "n div 2 + 1 \<le> 2 ^ bits (n div 2)" using IH by simp
    then have hi: "n < 2 ^ bits n" using b by (simp; linarith)
    show ?thesis using lo hi by simp
  qed
qed

lemma binade_spec:
  assumes "x \<noteq> 0"
  shows "power_int 2 (binade x) \<le> \<bar>x\<bar> \<and> \<bar>x\<bar> < power_int 2 (binade x + 1)"
proof (cases "1 \<le> \<bar>x\<bar>")
  case True
  define n where "n = nat \<lfloor>\<bar>x\<bar>\<rfloor>"
  have fl: "1 \<le> \<lfloor>\<bar>x\<bar>\<rfloor>" using True by (simp add: le_floor_iff)
  then have n: "0 < n" by (simp add: n_def)
  have nx: "of_nat n \<le> \<bar>x\<bar>" and xn: "\<bar>x\<bar> < of_nat n + 1"
  proof -
    have "of_nat n = (of_int \<lfloor>\<bar>x\<bar>\<rfloor> :: rat)" using fl by (simp add: n_def)
    then show "of_nat n \<le> \<bar>x\<bar>" and "\<bar>x\<bar> < of_nat n + 1" by linarith+
  qed
  have bp: "0 < bits n" using n by (simp add: bits.simps [of n])
  have b: "binade x = int (bits n) - 1" using True by (simp add: binade_def n_def)
  have e1: "power_int (2::rat) (binade x) = 2 ^ (bits n - 1)"
    using bp by (simp add: b power_int_def nat_diff_distrib')
  have e2: "power_int (2::rat) (binade x + 1) = 2 ^ bits n"
    by (simp add: b)
  have "(of_nat (2 ^ (bits n - 1)) :: rat) \<le> of_nat n"
    using bits_pos [OF n] by (intro of_nat_mono) simp
  then have "(2::rat) ^ (bits n - 1) \<le> of_nat n" by (simp only: of_nat_power of_nat_numeral)
  then have lo: "power_int 2 (binade x) \<le> \<bar>x\<bar>" using nx unfolding e1 by linarith
  have "n + 1 \<le> 2 ^ bits n" using bits_pos [OF n] by simp
  then have "(of_nat (n + 1) :: rat) \<le> of_nat (2 ^ bits n)" by (intro of_nat_mono)
  then have "(of_nat n :: rat) + 1 \<le> 2 ^ bits n"
    by (simp only: of_nat_power of_nat_numeral of_nat_add of_nat_1)
  then have hi: "\<bar>x\<bar> < power_int 2 (binade x + 1)" using xn unfolding e2 by linarith
  show ?thesis using lo hi by simp
next
  case False
  define r where "r = 1 / \<bar>x\<bar>"
  define j where "j = nat (\<lceil>r\<rceil> - 1)"
  have xp: "0 < \<bar>x\<bar>" using assms by simp
  have r1: "1 < r" using False xp by (simp add: r_def)
  then have c2: "2 \<le> \<lceil>r\<rceil>" by (simp add: le_ceiling_iff)
  then have j: "0 < j" by (simp add: j_def)
  have jr: "of_nat j < r" and rj: "r \<le> of_nat j + 1"
  proof -
    have "of_nat j = (of_int \<lceil>r\<rceil> :: rat) - 1" using c2 by (simp add: j_def)
    then show "of_nat j < r" and "r \<le> of_nat j + 1" by linarith+
  qed
  have bp: "0 < bits j" using j by (simp add: bits.simps [of j])
  have b: "binade x = - int (bits j)" using False by (simp add: binade_def j_def r_def)
  have e1: "power_int (2::rat) (binade x) = 1 / 2 ^ bits j"
    by (simp add: b power_int_minus_divide)
  have e2: "power_int (2::rat) (binade x + 1) = 1 / 2 ^ (bits j - 1)"
  proof -
    have "binade x + 1 = - int (bits j - 1)" using bp by (simp add: b)
    then show ?thesis by (simp add: power_int_minus_divide)
  qed
  have "j + 1 \<le> 2 ^ bits j" using bits_pos [OF j] by simp
  then have "(of_nat (j + 1) :: rat) \<le> of_nat (2 ^ bits j)" by (intro of_nat_mono)
  then have "(of_nat j :: rat) + 1 \<le> 2 ^ bits j"
    by (simp only: of_nat_power of_nat_numeral of_nat_add of_nat_1)
  then have "r \<le> 2 ^ bits j" using rj by linarith
  then have "1 / 2 ^ bits j \<le> \<bar>x\<bar>"
    using xp by (simp add: r_def field_simps)
  then have lo: "power_int 2 (binade x) \<le> \<bar>x\<bar>" by (simp only: e1)
  have "(of_nat (2 ^ (bits j - 1)) :: rat) \<le> of_nat j"
    using bits_pos [OF j] by (intro of_nat_mono) simp
  then have "(2::rat) ^ (bits j - 1) \<le> of_nat j" by (simp only: of_nat_power of_nat_numeral)
  then have "2 ^ (bits j - 1) < r" using jr by linarith
  then have "\<bar>x\<bar> < 1 / 2 ^ (bits j - 1)"
    using xp by (simp add: r_def field_simps)
  then have hi: "\<bar>x\<bar> < power_int 2 (binade x + 1)" by (simp only: e2)
  show ?thesis using lo hi by simp
qed

lemma binade_mono:
  assumes "x \<noteq> 0" and "\<bar>x\<bar> \<le> \<bar>y\<bar>"
  shows "binade x \<le> binade y"
proof (rule ccontr)
  assume "\<not> binade x \<le> binade y"
  then have "binade y + 1 \<le> binade x" by simp
  then have "power_int (2::rat) (binade y + 1) \<le> power_int 2 (binade x)"
    by (intro power_int_increasing) simp_all
  moreover have "y \<noteq> 0" using assms by auto
  ultimately show False
    using binade_spec [OF assms(1)] binade_spec [OF \<open>y \<noteq> 0\<close>] assms(2) by linarith
qed

lemma binade_unique:
  assumes "x \<noteq> 0" and "power_int 2 e \<le> \<bar>x\<bar>" and "\<bar>x\<bar> < power_int 2 (e + 1)"
  shows "binade x = e"
proof (rule ccontr)
  assume ne: "binade x \<noteq> e"
  note s = binade_spec [OF assms(1)]
  show False
  proof (cases "binade x < e")
    case True
    then have "binade x + 1 \<le> e" by simp
    then have "power_int (2::rat) (binade x + 1) \<le> power_int 2 e"
      by (intro power_int_increasing) simp_all
    then show False using s assms(2) by linarith
  next
    case False
    then have "e + 1 \<le> binade x" using ne by simp
    then have "power_int (2::rat) (e + 1) \<le> power_int 2 (binade x)"
      by (intro power_int_increasing) simp_all
    then show False using s assms(3) by linarith
  qed
qed

lemma binade_less:
  assumes "x \<noteq> 0" and "\<bar>x\<bar> < power_int 2 n"
  shows "binade x < n"
proof (rule ccontr)
  assume "\<not> binade x < n"
  then have "n \<le> binade x" by simp
  then have "power_int (2::rat) n \<le> power_int 2 (binade x)"
    by (intro power_int_increasing) simp_all
  then show False using binade_spec [OF assms(1)] assms(2) by linarith
qed

subsection \<open>Rounding to a whole number\<close>

lemma round_half_even_close: "\<bar>of_int (round_half_even y) - y\<bar> \<le> 1 / 2"
proof -
  have lo: "of_int \<lfloor>y\<rfloor> \<le> y" by simp
  have hi: "y < of_int \<lfloor>y\<rfloor> + 1" by linarith
  show ?thesis
    using lo hi by (simp add: round_half_even_def Let_def abs_if) linarith
qed

lemma round_half_even_of_int: "round_half_even (of_int n) = n"
  by (simp add: round_half_even_def)

lemma round_half_even_le:
  assumes "y \<le> of_int n"
  shows "round_half_even y \<le> n"
proof -
  have f: "\<lfloor>y\<rfloor> \<le> n" using assms by (simp add: floor_le_iff)
  show ?thesis
  proof (cases "\<lfloor>y\<rfloor> = n")
    case True
    then have "y = of_int n" using assms by (metis floor_le_iff le_less_linear not_less of_int_floor_le order_antisym)
    then show ?thesis by (simp add: round_half_even_of_int)
  next
    case False
    then have "\<lfloor>y\<rfloor> + 1 \<le> n" using f by simp
    then show ?thesis by (simp add: round_half_even_def Let_def)
  qed
qed

lemma round_half_even_ge:
  assumes "of_int n \<le> y"
  shows "n \<le> round_half_even y"
proof -
  have "n \<le> \<lfloor>y\<rfloor>" using assms by (simp add: le_floor_iff)
  then show ?thesis by (simp add: round_half_even_def Let_def)
qed

lemma round_half_even_unique:
  assumes "\<bar>y - of_int k\<bar> < 1 / 2"
  shows "round_half_even y = k"
proof -
  have "\<bar>of_int (round_half_even y) - y\<bar> \<le> 1 / 2" by (rule round_half_even_close)
  then have "\<bar>(of_int (round_half_even y) :: rat) - of_int k\<bar> < 1" using assms by linarith
  then have "\<bar>(of_int (round_half_even y - k) :: rat)\<bar> < 1" by simp
  then have "\<bar>round_half_even y - k\<bar> < 1" by (simp only: of_int_abs [symmetric] of_int_less_1_iff)
  then show ?thesis by simp
qed

lemma round_abs_le:
  assumes "\<bar>y\<bar> \<le> of_int n"
  shows "\<bar>round_half_even y\<bar> \<le> n"
proof -
  have a: "y \<le> of_int n" and b: "of_int (- n) \<le> y" using assms by (simp_all add: abs_le_iff)
  have "round_half_even y \<le> n" using a by (rule round_half_even_le)
  moreover have "- n \<le> round_half_even y" using b by (rule round_half_even_ge)
  ultimately show ?thesis by simp
qed

lemma round_half_even_0: "round_half_even 0 = 0"
  using round_half_even_of_int [of 0] by simp

subsection \<open>Rounding to a double\<close>

text \<open>
  Rounding keeps the sign, and it keeps a number within any bound that is itself on
  the grid of doubles; so the drawdown of line 115 is not positive, and it is finite,
  at most 100 in magnitude, when the highest price is a double.
\<close>

lemma quantum_pos: "0 < quantum x"
  by (simp add: quantum_def)

lemma nearest_nonpos: "x \<le> 0 \<Longrightarrow> nearest x \<le> 0"
proof -
  assume "x \<le> 0"
  then have "x / quantum x \<le> of_int 0" using quantum_pos [of x] by (simp add: divide_le_0_iff)
  then have "round_half_even (x / quantum x) \<le> 0" by (rule round_half_even_le)
  then show ?thesis using quantum_pos [of x] by (simp add: nearest_def mult_le_0_iff)
qed

lemma nearest_nonneg: "0 \<le> x \<Longrightarrow> 0 \<le> nearest x"
proof -
  assume "0 \<le> x"
  then have "of_int 0 \<le> x / quantum x" using quantum_pos [of x] by simp
  then have "0 \<le> round_half_even (x / quantum x)" by (rule round_half_even_ge)
  then show ?thesis using quantum_pos [of x] by (simp add: nearest_def)
qed

lemma pow2_split: "power_int (2::rat) (e + 1) = power_int 2 53 * power_int 2 (e - 52)"
proof -
  have "power_int (2::rat) (e + 1) = power_int 2 (53 + (e - 52))"
    by (rule arg_cong [where f = "power_int 2"]) simp
  also have "\<dots> = power_int 2 53 * power_int 2 (e - 52)"
    by (rule power_int_add) simp
  finally show ?thesis .
qed

lemma scaled_bound:
  assumes "\<bar>x::rat\<bar> < power_int 2 (e + 1)"
  shows "\<bar>x / power_int 2 (e - 52)\<bar> < 2 ^ 53"
proof -
  have q: "0 < power_int (2::rat) (e - 52)" by simp
  have "\<bar>x\<bar> < 2 ^ 53 * power_int 2 (e - 52)" using assms by (simp add: pow2_split)
  then have "\<bar>x\<bar> / power_int 2 (e - 52) < 2 ^ 53" using q by (simp add: pos_divide_less_eq)
  then show ?thesis using q by (simp add: abs_divide)
qed

text \<open>The rounded value stays within any bound that lies on the grid of its own binade.\<close>

lemma nearest_bounded:
  assumes "x \<noteq> 0" and "0 < B" and "\<bar>x\<bar> \<le> B" and "B = of_int n * quantum B"
  shows "\<bar>nearest x\<bar> \<le> B"
proof -
  let ?ex = "max (binade x) (- 1022)"
  let ?eB = "max (binade B) (- 1022)"
  have Bn: "B \<noteq> 0" using assms(2) by simp
  have "binade x \<le> binade B" using assms(1,2,3) by (intro binade_mono) simp_all
  then have le: "?ex \<le> ?eB" by simp
  have qx: "0 < quantum x" by (rule quantum_pos)
  show ?thesis
  proof (cases "?ex = ?eB")
    case True
    then have q: "quantum x = quantum B" by (simp add: quantum_def)
    have "\<bar>x\<bar> / quantum x \<le> of_int n"
      using assms(3,4) qx q by (simp add: pos_divide_le_eq)
    then have "\<bar>x / quantum x\<bar> \<le> of_int n" using qx by (simp add: abs_divide)
    then have "\<bar>round_half_even (x / quantum x)\<bar> \<le> n" by (rule round_abs_le)
    then have "(of_int \<bar>round_half_even (x / quantum x)\<bar> :: rat) \<le> of_int n"
      by (simp only: of_int_le_iff)
    then have "\<bar>of_int (round_half_even (x / quantum x))\<bar> * quantum x \<le> of_int n * quantum x"
      using qx by (simp add: mult_right_mono)
    then show ?thesis using qx assms(4) q by (simp add: nearest_def abs_mult)
  next
    case False
    then have lt: "?ex + 1 \<le> ?eB" using le by simp
    then have eB: "?eB = binade B" by (simp add: max_def split: if_splits)
    have "\<bar>x\<bar> < power_int 2 (binade x + 1)" using binade_spec [OF assms(1)] by simp
    also have "\<dots> \<le> power_int 2 (?ex + 1)" by (intro power_int_increasing) simp_all
    finally have xb: "\<bar>x\<bar> < power_int 2 (?ex + 1)" .
    have "\<bar>x / power_int 2 (?ex - 52)\<bar> < 2 ^ 53" using xb by (rule scaled_bound)
    then have "\<bar>x / quantum x\<bar> \<le> of_int (2 ^ 53)" by (simp add: quantum_def)
    then have "\<bar>round_half_even (x / quantum x)\<bar> \<le> 2 ^ 53" by (rule round_abs_le)
    then have "(of_int \<bar>round_half_even (x / quantum x)\<bar> :: rat) \<le> of_int (2 ^ 53)"
      by (simp only: of_int_le_iff)
    then have "\<bar>of_int (round_half_even (x / quantum x))\<bar> * quantum x \<le> 2 ^ 53 * quantum x"
      using qx by (simp add: mult_right_mono)
    then have "\<bar>nearest x\<bar> \<le> power_int 2 53 * power_int 2 (?ex - 52)"
      using qx by (simp add: nearest_def abs_mult quantum_def)
    then have "\<bar>nearest x\<bar> \<le> power_int 2 (?ex + 1)" by (simp only: pow2_split)
    also have "\<dots> \<le> power_int 2 ?eB" using lt by (intro power_int_increasing) simp_all
    also have "\<dots> \<le> \<bar>B\<bar>" using binade_spec [OF Bn] by (simp only: eB)
    finally show ?thesis using assms(2) by simp
  qed
qed

lemma rnd_nonpos:
  assumes "x \<le> 0"
  shows "nonpos (rnd x)"
  using assms nearest_nonpos [OF assms] by (simp add: rnd_def)

lemma rnd_mag_le:
  assumes "0 < B" and "\<bar>x\<bar> \<le> B" and "B = of_int n * quantum B" and "B < power_int 2 1024"
  shows "mag_le (rnd x) B"
proof (cases "x = 0")
  case True
  then show ?thesis using assms(1) by (simp add: rnd_def)
next
  case False
  have b: "\<bar>nearest x\<bar> \<le> B" using False assms(1,2,3) by (rule nearest_bounded)
  show ?thesis
  proof (cases "nearest x = 0")
    case True
    then show ?thesis using False assms(1) by (simp add: rnd_def)
  next
    case nz: False
    have "\<bar>nearest x\<bar> < power_int 2 1024" using b assms(4) by linarith
    then have "binade (nearest x) < 1024" using nz by (intro binade_less)
    then show ?thesis using False nz b by (simp add: rnd_def)
  qed
qed

lemma rnd_pos_bounded:
  assumes "0 < x" and "x \<le> B" and "B = of_int n * quantum B" and "B < power_int 2 1024"
  shows "rnd x = Fin (nearest x) \<and> 0 \<le> nearest x \<and> nearest x \<le> B"
proof -
  have xn: "x \<noteq> 0" and B: "0 < B" using assms(1,2) by simp_all
  have ab: "\<bar>x\<bar> \<le> B" using assms(1,2) by simp
  have b: "\<bar>nearest x\<bar> \<le> B" using xn B ab assms(3) by (rule nearest_bounded)
  have p: "0 \<le> nearest x" using assms(1) by (intro nearest_nonneg) simp
  show ?thesis
  proof (cases "nearest x = 0")
    case True
    then show ?thesis using assms(1) B by (simp add: rnd_def)
  next
    case nz: False
    have "\<bar>nearest x\<bar> < power_int 2 1024" using b assms(4) by linarith
    then have "binade (nearest x) < 1024" using nz by (intro binade_less)
    then show ?thesis using xn nz b p by (simp add: rnd_def)
  qed
qed

lemma is_double_nearest:
  assumes "is_double d" and "d \<noteq> 0"
  shows "nearest d = d \<and> binade d < 1024"
  using assms by (simp add: is_double_def rnd_def split: if_splits)

lemma is_double_grid:
  assumes "is_double d" and "d \<noteq> 0"
  shows "d = of_int (round_half_even (d / quantum d)) * quantum d \<and> \<bar>d\<bar> < power_int 2 1024"
proof -
  note n = is_double_nearest [OF assms]
  have g: "d = of_int (round_half_even (d / quantum d)) * quantum d"
    using n by (simp add: nearest_def)
  have "\<bar>d\<bar> < power_int 2 (binade d + 1)" using binade_spec [OF assms(2)] by simp
  also have "\<dots> \<le> power_int 2 1024" using n by (intro power_int_increasing) simp_all
  finally show ?thesis using g by simp
qed

lemma binade_1: "binade 1 = 0"
  by (rule binade_unique) simp_all

lemma binade_100: "binade 100 = 6"
  by (rule binade_unique) simp_all

lemma binade_10000: "binade 10000 = 13"
  by (rule binade_unique) simp_all

lemma binade_hundredth: "binade (1 / 100) = - 7"
  by (rule binade_unique) simp_all

lemma grid_1: "(1::rat) = of_int (2 ^ 52) * quantum 1"
  by (simp add: quantum_def binade_1)

lemma grid_100: "(100::rat) = of_int (100 * 2 ^ 46) * quantum 100"
  by (simp add: quantum_def binade_100)

lemma grid_10000: "(10000::rat) = of_int (10000 * 2 ^ 39) * quantum 10000"
  by (simp add: quantum_def binade_10000)

text \<open>A rounding checked from its exponent and its integer significand.\<close>

lemma rnd_cert:
  assumes "x \<noteq> 0"
    and "power_int 2 e \<le> \<bar>x\<bar>" and "\<bar>x\<bar> < power_int 2 (e + 1)"
    and "- 1022 \<le> e" and "e < 1023"
    and "\<bar>x / power_int 2 (e - 52) - of_int k\<bar> < 1 / 2" and "k \<noteq> 0"
    and "y = of_int k * power_int 2 (e - 52)"
  shows "rnd x = Fin y"
proof -
  have b: "binade x = e" using assms(1,2,3) by (rule binade_unique)
  have q: "quantum x = power_int 2 (e - 52)" using assms(4) by (simp add: quantum_def b)
  have r0: "round_half_even (x / power_int 2 (e - 52)) = k"
    using assms(6) by (rule round_half_even_unique)
  then have r: "round_half_even (x / quantum x) = k" using q by simp
  have n: "nearest x = y" by (simp add: nearest_def r0 q assms(8))
  have y0: "y \<noteq> 0" using assms(7,8) by simp
  have "\<bar>x / power_int 2 (e - 52)\<bar> < 2 ^ 53" using assms(3) by (rule scaled_bound)
  then have "\<bar>x / quantum x\<bar> \<le> of_int (2 ^ 53)" by (simp add: q)
  then have "\<bar>round_half_even (x / quantum x)\<bar> \<le> 2 ^ 53" by (rule round_abs_le)
  then have "(of_int \<bar>k\<bar> :: rat) \<le> of_int (2 ^ 53)" unfolding r by (simp only: of_int_le_iff)
  then have "\<bar>of_int k\<bar> * power_int 2 (e - 52) \<le> 2 ^ 53 * power_int (2::rat) (e - 52)"
    by (simp add: mult_right_mono)
  then have "\<bar>y\<bar> \<le> power_int 2 53 * power_int 2 (e - 52)"
    by (simp add: assms(8) abs_mult)
  then have "\<bar>y\<bar> \<le> power_int 2 (e + 1)" by (simp only: pow2_split)
  also have "\<dots> < power_int 2 1024" using assms(5) by (intro power_int_strict_increasing) simp_all
  finally have "binade y < 1024" using y0 by (intro binade_less)
  then show ?thesis using assms(1) y0 by (simp add: rnd_def n)
qed

lemma fdiv_bounds:
  assumes "nonpos v" and "mag_le v mx" and "0 < mx"
  shows "nonpos (fdiv v mx) \<and> mag_le (fdiv v mx) 1"
proof (cases v)
  case (Fin a)
  show ?thesis
  proof (cases "a = 0")
    case True
    then show ?thesis using Fin assms(3) by simp
  next
    case False
    have a: "a \<le> 0" "\<bar>a\<bar> \<le> mx" using assms(1,2) Fin by simp_all
    have "a / mx \<le> 0" using a(1) assms(3) by (simp add: divide_le_0_iff)
    then have s: "nonpos (rnd (a / mx))" by (rule rnd_nonpos)
    have h: "\<bar>a / mx\<bar> \<le> 1" using a(2) assms(3) by (simp add: abs_divide)
    have m: "mag_le (rnd (a / mx)) 1"
      by (rule rnd_mag_le [OF _ h grid_1]) simp_all
    show ?thesis using Fin False assms(3) s m by simp
  qed
next
  case NZero
  then show ?thesis using assms(3) by simp
next
  case PInf
  then show ?thesis using assms(2) by simp
next
  case NInf
  then show ?thesis using assms(2) by simp
next
  case NaN
  then show ?thesis using assms(2) by simp
qed

lemma fmul_bounds:
  assumes "nonpos v" and "mag_le v 1"
  shows "nonpos (fmul v 100) \<and> mag_le (fmul v 100) 100"
proof (cases v)
  case (Fin a)
  show ?thesis
  proof (cases "a = 0")
    case True
    then show ?thesis using Fin by simp
  next
    case False
    have a: "a \<le> 0" "\<bar>a\<bar> \<le> 1" using assms Fin by simp_all
    have "a * 100 \<le> 0" using a(1) by (simp add: mult_le_0_iff)
    then have s: "nonpos (rnd (a * 100))" by (rule rnd_nonpos)
    have h: "\<bar>a * 100\<bar> \<le> 100" using a(2) by (simp add: abs_mult)
    have m: "mag_le (rnd (a * 100)) 100"
      by (rule rnd_mag_le [OF _ h grid_100]) simp_all
    show ?thesis using Fin False s m by simp
  qed
next
  case NZero
  then show ?thesis by simp
next
  case PInf
  then show ?thesis using assms(2) by simp
next
  case NInf
  then show ?thesis using assms(2) by simp
next
  case NaN
  then show ?thesis using assms(2) by simp
qed

lemma fdiv_nonpos:
  assumes "nonpos v" and "0 < mx"
  shows "nonpos (fdiv v mx)"
proof (cases v)
  case (Fin a)
  have "a / mx \<le> 0" using assms Fin by (simp add: divide_le_0_iff)
  then have "nonpos (rnd (a / mx))" by (rule rnd_nonpos)
  then show ?thesis using Fin assms(2) by simp
next
  case NZero
  then show ?thesis using assms(2) by simp
next
  case PInf
  then show ?thesis using assms(1) by simp
next
  case NInf
  then show ?thesis using assms(2) by simp
next
  case NaN
  then show ?thesis using assms(1) by simp
qed

lemma fmul_nonpos:
  assumes "nonpos v"
  shows "nonpos (fmul v 100)"
proof (cases v)
  case (Fin a)
  have "a * 100 \<le> 0" using assms Fin by (simp add: mult_le_0_iff)
  then have "nonpos (rnd (a * 100))" by (rule rnd_nonpos)
  then show ?thesis using Fin by simp
next
  case PInf
  then show ?thesis using assms by simp
next
  case NaN
  then show ?thesis using assms by simp
qed simp_all

lemma percent_dropped_nonpos:
  assumes "pt \<le> mx" and "0 < mx"
  shows "nonpos (percent_dropped pt mx)"
proof -
  have "pt - mx \<le> 0" using assms(1) by simp
  then have "nonpos (fsub pt mx)" unfolding fsub_def by (rule rnd_nonpos)
  then have "nonpos (fdiv (fsub pt mx) mx)" using assms(2) by (rule fdiv_nonpos)
  then have "nonpos (fmul (fdiv (fsub pt mx) mx) 100)" by (rule fmul_nonpos)
  then show ?thesis by (simp add: percent_dropped_def)
qed

lemma percent_dropped_bounds:
  assumes "0 \<le> pt" and "pt \<le> mx" and "0 < mx" and "is_double mx"
  shows "mag_le (percent_dropped pt mx) 100"
proof -
  have mx: "mx \<noteq> 0" using assms(3) by simp
  note g = is_double_grid [OF assms(4) mx]
  have "pt - mx \<le> 0" using assms(2) by simp
  then have s1: "nonpos (fsub pt mx)" unfolding fsub_def by (rule rnd_nonpos)
  have h: "\<bar>pt - mx\<bar> \<le> mx" using assms(1,2) by simp
  have m1: "mag_le (fsub pt mx) mx"
    unfolding fsub_def using assms(3) g
    by (intro rnd_mag_le [OF _ h, where n = "round_half_even (mx / quantum mx)"]) simp_all
  note d = fdiv_bounds [OF s1 m1 assms(3)]
  have "nonpos (fmul (fdiv (fsub pt mx) mx) 100) \<and> mag_le (fmul (fdiv (fsub pt mx) mx) 100) 100"
    using d by (intro fmul_bounds) simp_all
  then show ?thesis by (simp add: percent_dropped_def)
qed

text \<open>
  The rounded number is within half a spacing of the exact one. So the two divisions
  and the product of \<^verbatim>\<open>round(x, 2)\<close> lose nothing that shows in two decimals: the
  text printed is that of the whole number of hundredths.
\<close>

lemma nearest_close: "\<bar>nearest x - x\<bar> \<le> quantum x / 2"
proof -
  have q: "0 < quantum x" by (rule quantum_pos)
  have c: "\<bar>of_int (round_half_even (x / quantum x)) - x / quantum x\<bar> \<le> 1 / 2"
    by (rule round_half_even_close)
  have "nearest x - x = (of_int (round_half_even (x / quantum x)) - x / quantum x) * quantum x"
    using q by (simp add: nearest_def left_diff_distrib)
  then have "\<bar>nearest x - x\<bar>
      = \<bar>of_int (round_half_even (x / quantum x)) - x / quantum x\<bar> * quantum x"
    using q by (simp add: abs_mult)
  also have "\<dots> \<le> (1 / 2) * quantum x"
    using c q by (intro mult_right_mono) simp_all
  finally show ?thesis by simp
qed

lemma quantum_mono:
  assumes "x \<noteq> 0" and "\<bar>x\<bar> \<le> \<bar>y\<bar>"
  shows "quantum x \<le> quantum y"
proof -
  have "binade x \<le> binade y" using assms by (rule binade_mono)
  then show ?thesis unfolding quantum_def by (intro power_int_increasing) simp_all
qed

lemma quantum_100: "quantum 100 = 1 / 2 ^ 46"
  by (simp add: quantum_def binade_100 power_int_minus_divide)

lemma quantum_10000: "quantum 10000 = 1 / 2 ^ 39"
  by (simp add: quantum_def binade_10000 power_int_minus_divide)

text \<open>The scaling step of \<open>round2\<close> on a magnitude up to 100.\<close>

lemma scale_bounded:
  assumes "0 < x" and "x \<le> 100"
  shows "fmul (Fin x) 100 = Fin (nearest (x * 100))
       \<and> 0 \<le> nearest (x * 100) \<and> nearest (x * 100) \<le> 10000
       \<and> \<bar>nearest (x * 100) - x * 100\<bar> \<le> 1 / 2 ^ 40"
proof -
  have p: "0 < x * 100" "x * 100 \<le> 10000" using assms by simp_all
  have r: "rnd (x * 100) = Fin (nearest (x * 100)) \<and> 0 \<le> nearest (x * 100)
      \<and> nearest (x * 100) \<le> 10000"
    using p grid_10000 by (rule rnd_pos_bounded) simp
  have "quantum (x * 100) \<le> quantum 10000"
    using p by (intro quantum_mono) simp_all
  then have "quantum (x * 100) / 2 \<le> 1 / 2 ^ 40" by (simp add: quantum_10000)
  then have c: "\<bar>nearest (x * 100) - x * 100\<bar> \<le> 1 / 2 ^ 40"
    using nearest_close [of "x * 100"] by linarith
  show ?thesis using assms(1) r c by simp
qed

text \<open>Dividing a whole number of hundredths by 100 and printing it gives it back.\<close>

lemma hundredth_text:
  assumes "1 \<le> k" and "k \<le> 10000"
  shows "str (fdiv (Fin (of_int k)) 100) = str_hundredths (nat k)"
proof -
  define z :: rat where "z = of_int k / 100"
  have p: "0 < z" "z \<le> 100" using assms by (simp_all add: z_def)
  have r: "rnd z = Fin (nearest z) \<and> 0 \<le> nearest z \<and> nearest z \<le> 100"
    using p grid_100 by (rule rnd_pos_bounded) simp
  have "quantum z \<le> quantum 100" using p by (intro quantum_mono) simp_all
  then have "quantum z / 2 \<le> 1 / 2 ^ 47" by (simp add: quantum_100)
  then have c: "\<bar>nearest z - z\<bar> \<le> 1 / 2 ^ 47"
    using nearest_close [of z] by linarith
  have "nearest z * 100 - of_int k = (nearest z - z) * 100" by (simp add: z_def left_diff_distrib)
  then have "\<bar>nearest z * 100 - of_int k\<bar> = \<bar>nearest z - z\<bar> * 100"
    by (simp only: abs_mult)
  also have "\<dots> \<le> (1 / 2 ^ 47) * 100" using c by (intro mult_right_mono) simp_all
  also have "\<dots> < 1 / 2" by simp
  finally have "round_half_even (nearest z * 100) = k" by (rule round_half_even_unique)
  moreover have "fdiv (Fin (of_int k)) 100 = Fin (nearest z)"
    using assms(1) r by (simp add: z_def)
  ultimately show ?thesis using r by simp
qed

lemma round2_text:
  assumes "0 < x" and "x \<le> 100"
  shows "str (round2 (Fin x)) = str_hundredths (nat (hundredths (Fin x)))
       \<and> 0 \<le> hundredths (Fin x) \<and> hundredths (Fin x) \<le> 10000
       \<and> \<bar>of_int (hundredths (Fin x)) - x * 100\<bar> \<le> 1 / 2 + 1 / 2 ^ 40"
proof -
  note s = scale_bounded [OF assms]
  define y where "y = nearest (x * 100)"
  define k where "k = round_half_even y"
  have m: "fmul (Fin x) 100 = Fin y" and y0: "0 \<le> y" and y1: "y \<le> 10000"
    and yc: "\<bar>y - x * 100\<bar> \<le> 1 / 2 ^ 40"
    using s by (simp_all add: y_def)
  have h: "hundredths (Fin x) = k" by (simp only: hundredths_def m k_def fnum.case)
  have "of_int 0 \<le> y" using y0 by simp
  then have k0: "0 \<le> k" unfolding k_def by (rule round_half_even_ge)
  have "y \<le> of_int 10000" using y1 by simp
  then have k1: "k \<le> 10000" unfolding k_def by (rule round_half_even_le)
  have kc: "\<bar>of_int k - y\<bar> \<le> 1 / 2" unfolding k_def by (rule round_half_even_close)
  have close: "\<bar>of_int k - x * 100\<bar> \<le> 1 / 2 + 1 / 2 ^ 40" using kc yc by linarith
  have printed: "str (round2 (Fin x)) = str_hundredths (nat k)"
  proof (cases "k = 0")
    case True
    then have "rint (Fin y) = Fin 0" using y0 by (simp add: k_def)
    then have "round2 (Fin x) = Fin 0" by (simp only: round2_def m) simp
    then show ?thesis using True by (simp add: round_half_even_0)
  next
    case False
    then have k1': "1 \<le> k" using k0 by simp
    have "rint (Fin y) = Fin (of_int k)" using False by (simp add: k_def)
    then have "round2 (Fin x) = fdiv (Fin (of_int k)) 100" by (simp only: round2_def m)
    then show ?thesis using hundredth_text [OF k1' k1] by simp
  qed
  show ?thesis using printed k0 k1 close by (simp only: h)
qed

subsection \<open>The doubles of the sample market\<close>

text \<open>
  Each rounding is checked from its exponent \<open>e\<close> and its significand \<open>k\<close>: the
  exact result lies in the binade of \<open>e\<close> and within half a unit of \<open>k\<close> units.
\<close>

lemma is_double_100: "is_double 100"
  unfolding is_double_def
  by (rule rnd_cert [where e = "6" and k = "7036874417766400"]) simp_all

lemma is_double_160: "is_double 160"
  unfolding is_double_def
  by (rule rnd_cert [where e = "7" and k = "5629499534213120"]) simp_all

lemma drop_80_100:
  "percent_dropped 80 100 = Fin (- 20)"
proof -
  have a: "fsub 80 100 = Fin (- 20)"
    unfolding fsub_def
    by (rule rnd_cert [where e = "4" and k = "- 5629499534213120"]) simp_all
  have "fdiv (Fin (- 20)) 100 = rnd (- 20 / 100)"
    by simp
  also have "\<dots> = Fin (- (3602879701896397 / 18014398509481984))"
    by (rule rnd_cert [where e = "- 3" and k = "- 7205759403792794"]) simp_all
  finally have b: "fdiv (Fin (- 20)) 100
      = Fin (- (3602879701896397 / 18014398509481984))" .
  have "fmul (Fin (- (3602879701896397 / 18014398509481984))) 100
      = rnd ((- (3602879701896397 / 18014398509481984)) * 100)"
    by simp
  also have "\<dots> = Fin (- 20)"
    by (rule rnd_cert [where e = "4" and k = "- 5629499534213120"]) simp_all
  finally have c: "fmul (Fin (- (3602879701896397 / 18014398509481984))) 100
      = Fin (- 20)" .
  show ?thesis by (simp only: percent_dropped_def a b c)
qed

lemma hund_20:
  "hundredths (Fin 20) = 2000"
proof -
  have "fmul (Fin 20) 100
      = rnd (20 * 100)"
    by simp
  also have "\<dots> = Fin 2000"
    by (rule rnd_cert [where e = "10" and k = "8796093022208000"]) simp_all
  finally have m: "fmul (Fin 20) 100
      = Fin 2000" .
  have "\<bar>2000 - rat_of_int 2000\<bar> < 1 / 2"
    by simp
  then have r: "round_half_even 2000 = 2000"
    by (rule round_half_even_unique)
  show ?thesis by (simp only: hundredths_def m fnum.case r)
qed

lemma text_20:
  "str (round2 (Fin 20)) = ''20.0''"
proof -
  have "str (round2 (Fin 20))
      = str_hundredths (nat (hundredths (Fin 20)))"
    using round2_text [of "20"] by simp
  then show ?thesis by (simp add: hund_20 str_hundredths_def dec.simps digit_def)
qed

lemma drop_60_100:
  "percent_dropped 60 100 = Fin (- 40)"
proof -
  have a: "fsub 60 100 = Fin (- 40)"
    unfolding fsub_def
    by (rule rnd_cert [where e = "5" and k = "- 5629499534213120"]) simp_all
  have "fdiv (Fin (- 40)) 100 = rnd (- 40 / 100)"
    by simp
  also have "\<dots> = Fin (- (3602879701896397 / 9007199254740992))"
    by (rule rnd_cert [where e = "- 2" and k = "- 7205759403792794"]) simp_all
  finally have b: "fdiv (Fin (- 40)) 100
      = Fin (- (3602879701896397 / 9007199254740992))" .
  have "fmul (Fin (- (3602879701896397 / 9007199254740992))) 100
      = rnd ((- (3602879701896397 / 9007199254740992)) * 100)"
    by simp
  also have "\<dots> = Fin (- 40)"
    by (rule rnd_cert [where e = "5" and k = "- 5629499534213120"]) simp_all
  finally have c: "fmul (Fin (- (3602879701896397 / 9007199254740992))) 100
      = Fin (- 40)" .
  show ?thesis by (simp only: percent_dropped_def a b c)
qed

lemma hund_40:
  "hundredths (Fin 40) = 4000"
proof -
  have "fmul (Fin 40) 100
      = rnd (40 * 100)"
    by simp
  also have "\<dots> = Fin 4000"
    by (rule rnd_cert [where e = "11" and k = "8796093022208000"]) simp_all
  finally have m: "fmul (Fin 40) 100
      = Fin 4000" .
  have "\<bar>4000 - rat_of_int 4000\<bar> < 1 / 2"
    by simp
  then have r: "round_half_even 4000 = 4000"
    by (rule round_half_even_unique)
  show ?thesis by (simp only: hundredths_def m fnum.case r)
qed

lemma text_40:
  "str (round2 (Fin 40)) = ''40.0''"
proof -
  have "str (round2 (Fin 40))
      = str_hundredths (nat (hundredths (Fin 40)))"
    using round2_text [of "40"] by simp
  then show ?thesis by (simp add: hund_40 str_hundredths_def dec.simps digit_def)
qed

lemma drop_31_40:
  "percent_dropped 31 40 = Fin (- (45 / 2))"
proof -
  have a: "fsub 31 40 = Fin (- 9)"
    unfolding fsub_def
    by (rule rnd_cert [where e = "3" and k = "- 5066549580791808"]) simp_all
  have "fdiv (Fin (- 9)) 40 = rnd (- 9 / 40)"
    by simp
  also have "\<dots> = Fin (- (8106479329266893 / 36028797018963968))"
    by (rule rnd_cert [where e = "- 3" and k = "- 8106479329266893"]) simp_all
  finally have b: "fdiv (Fin (- 9)) 40
      = Fin (- (8106479329266893 / 36028797018963968))" .
  have "fmul (Fin (- (8106479329266893 / 36028797018963968))) 100
      = rnd ((- (8106479329266893 / 36028797018963968)) * 100)"
    by simp
  also have "\<dots> = Fin (- (45 / 2))"
    by (rule rnd_cert [where e = "4" and k = "- 6333186975989760"]) simp_all
  finally have c: "fmul (Fin (- (8106479329266893 / 36028797018963968))) 100
      = Fin (- (45 / 2))" .
  show ?thesis by (simp only: percent_dropped_def a b c)
qed

lemma hund_22_5:
  "hundredths (Fin (45 / 2)) = 2250"
proof -
  have "fmul (Fin (45 / 2)) 100
      = rnd ((45 / 2) * 100)"
    by simp
  also have "\<dots> = Fin 2250"
    by (rule rnd_cert [where e = "11" and k = "4947802324992000"]) simp_all
  finally have m: "fmul (Fin (45 / 2)) 100
      = Fin 2250" .
  have "\<bar>2250 - rat_of_int 2250\<bar> < 1 / 2"
    by simp
  then have r: "round_half_even 2250 = 2250"
    by (rule round_half_even_unique)
  show ?thesis by (simp only: hundredths_def m fnum.case r)
qed

lemma text_22_5:
  "str (round2 (Fin (45 / 2))) = ''22.5''"
proof -
  have "str (round2 (Fin (45 / 2)))
      = str_hundredths (nat (hundredths (Fin (45 / 2))))"
    using round2_text [of "45 / 2"] by simp
  then show ?thesis by (simp add: hund_22_5 str_hundredths_def dec.simps digit_def)
qed

lemma drop_93_100:
  "percent_dropped 93 100 = Fin (- (7881299347898369 / 1125899906842624))"
proof -
  have a: "fsub 93 100 = Fin (- 7)"
    unfolding fsub_def
    by (rule rnd_cert [where e = "2" and k = "- 7881299347898368"]) simp_all
  have "fdiv (Fin (- 7)) 100 = rnd (- 7 / 100)"
    by simp
  also have "\<dots> = Fin (- (1261007895663739 / 18014398509481984))"
    by (rule rnd_cert [where e = "- 4" and k = "- 5044031582654956"]) simp_all
  finally have b: "fdiv (Fin (- 7)) 100
      = Fin (- (1261007895663739 / 18014398509481984))" .
  have "fmul (Fin (- (1261007895663739 / 18014398509481984))) 100
      = rnd ((- (1261007895663739 / 18014398509481984)) * 100)"
    by simp
  also have "\<dots> = Fin (- (7881299347898369 / 1125899906842624))"
    by (rule rnd_cert [where e = "2" and k = "- 7881299347898369"]) simp_all
  finally have c: "fmul (Fin (- (1261007895663739 / 18014398509481984))) 100
      = Fin (- (7881299347898369 / 1125899906842624))" .
  show ?thesis by (simp only: percent_dropped_def a b c)
qed

lemma hund_7:
  "hundredths (Fin (7881299347898369 / 1125899906842624)) = 700"
proof -
  have "fmul (Fin (7881299347898369 / 1125899906842624)) 100
      = rnd ((7881299347898369 / 1125899906842624) * 100)"
    by simp
  also have "\<dots> = Fin (6157265115545601 / 8796093022208)"
    by (rule rnd_cert [where e = "9" and k = "6157265115545601"]) simp_all
  finally have m: "fmul (Fin (7881299347898369 / 1125899906842624)) 100
      = Fin (6157265115545601 / 8796093022208)" .
  have "\<bar>(6157265115545601 / 8796093022208) - rat_of_int 700\<bar> < 1 / 2"
    by simp
  then have r: "round_half_even (6157265115545601 / 8796093022208) = 700"
    by (rule round_half_even_unique)
  show ?thesis by (simp only: hundredths_def m fnum.case r)
qed

lemma text_7:
  "str (round2 (Fin (7881299347898369 / 1125899906842624))) = ''7.0''"
proof -
  have "str (round2 (Fin (7881299347898369 / 1125899906842624)))
      = str_hundredths (nat (hundredths (Fin (7881299347898369 / 1125899906842624))))"
    using round2_text [of "7881299347898369 / 1125899906842624"] by simp
  then show ?thesis by (simp add: hund_7 str_hundredths_def dec.simps digit_def)
qed

lemma drop_67_160:
  "percent_dropped 67 160 = Fin (- (8180366510653441 / 140737488355328))"
proof -
  have a: "fsub 67 160 = Fin (- 93)"
    unfolding fsub_def
    by (rule rnd_cert [where e = "6" and k = "- 6544293208522752"]) simp_all
  have "fdiv (Fin (- 93)) 160 = rnd (- 93 / 160)"
    by simp
  also have "\<dots> = Fin (- (2617717283409101 / 4503599627370496))"
    by (rule rnd_cert [where e = "- 1" and k = "- 5235434566818202"]) simp_all
  finally have b: "fdiv (Fin (- 93)) 160
      = Fin (- (2617717283409101 / 4503599627370496))" .
  have "fmul (Fin (- (2617717283409101 / 4503599627370496))) 100
      = rnd ((- (2617717283409101 / 4503599627370496)) * 100)"
    by simp
  also have "\<dots> = Fin (- (8180366510653441 / 140737488355328))"
    by (rule rnd_cert [where e = "5" and k = "- 8180366510653441"]) simp_all
  finally have c: "fmul (Fin (- (2617717283409101 / 4503599627370496))) 100
      = Fin (- (8180366510653441 / 140737488355328))" .
  show ?thesis by (simp only: percent_dropped_def a b c)
qed

lemma hund_58_13:
  "hundredths (Fin (8180366510653441 / 140737488355328)) = 5813"
proof -
  have "fmul (Fin (8180366510653441 / 140737488355328)) 100
      = rnd ((8180366510653441 / 140737488355328) * 100)"
    by simp
  also have "\<dots> = Fin (6390911336448001 / 1099511627776)"
    by (rule rnd_cert [where e = "12" and k = "6390911336448001"]) simp_all
  finally have m: "fmul (Fin (8180366510653441 / 140737488355328)) 100
      = Fin (6390911336448001 / 1099511627776)" .
  have "\<bar>(6390911336448001 / 1099511627776) - rat_of_int 5813\<bar> < 1 / 2"
    by simp
  then have r: "round_half_even (6390911336448001 / 1099511627776) = 5813"
    by (rule round_half_even_unique)
  show ?thesis by (simp only: hundredths_def m fnum.case r)
qed

lemma text_58_13:
  "str (round2 (Fin (8180366510653441 / 140737488355328))) = ''58.13''"
proof -
  have "str (round2 (Fin (8180366510653441 / 140737488355328)))
      = str_hundredths (nat (hundredths (Fin (8180366510653441 / 140737488355328))))"
    using round2_text [of "8180366510653441 / 140737488355328"] by simp
  then show ?thesis by (simp add: hund_58_13 str_hundredths_def dec.simps digit_def)
qed

lemma drop_80_80: "percent_dropped 80 80 = Fin 0"
  by (simp add: percent_dropped_def fsub_def rnd_def)

text \<open>
  With a negative threshold a ticker at its highest price is reported, and the number
  in its line is the negative zero.
\<close>

lemma negative_threshold_minus_zero:
  "fst (ticker_body sample_world 30 2 (- 1) False ''FLAT'')
     = Inr (''FLAT dropped -0.0%'' @ [CHR 0x0A])"
  by (simp add: ticker_body_def sample_world_def market_def get_def TODAY_def Let_def
      drop_80_80 alert_line_def round2_def)

subsection \<open>Evaluating the sample runs\<close>

lemmas run_defs =
  create_ticker_message_def ticker_body_def get_def TODAY_def OK_def log_def
  alert_line_def drop_80_100 drop_60_100 drop_31_40 text_20 text_40 text_22_5
  Let_def send_message_def main_def after_config_def
  probe_text_def exit_status_def market_def sample_config_def sample_world_def

subsection \<open>A history shorter than the trend window\<close>

lemma short_history_index_error:
  assumes "history w recentPeak t = Inr close" and "int (length close) < recentTrend"
  shows "ticker_body w recentPeak recentTrend th debug t
           = (Inl IndexError, log debug DEBUG @ [Fetch recentPeak t])"
  using assms(1) get_short [OF assms(2)] by (simp add: ticker_body_def Let_def)

subsection \<open>The loop against the rule of the specification\<close>

lemma body_as_spec:
  assumes "1 \<le> recentTrend"
    and "\<forall>close. history w recentPeak t = Inr close \<longrightarrow> recentTrend \<le> int (length close)"
  shows "fst (ticker_body w recentPeak recentTrend th debug t)
       = Inr (if spec_qualifies w recentPeak recentTrend th t then spec_line w recentPeak t
              else [])"
proof (cases "history w recentPeak t")
  case (Inl e)
  then show ?thesis
    by (simp add: ticker_body_def spec_qualifies_def Let_def)
next
  case (Inr close)
  have len: "recentTrend \<le> int (length close)" using assms(2) Inr by simp
  have ne: "close \<noteq> []" using assms(1) len by auto
  have g1: "get close (- recentTrend) = Inr (rev close ! (nat recentTrend - 1))"
    using assms(1) len by (rule get_from_end)
  have g2: "get close (- 1) = Inr (last close)" using ne by (rule get_today)
  show ?thesis using Inr g1 g2
    by (simp add: ticker_body_def spec_qualifies_def spec_line_def TODAY_def Let_def)
qed

lemma loop_as_spec:
  assumes "1 \<le> recentTrend"
    and "\<forall>t\<in>set ts. \<forall>close. history w recentPeak t = Inr close
            \<longrightarrow> recentTrend \<le> int (length close)"
  shows "fst (tickers_loop w recentPeak recentTrend th debug ts msg tr)
       = Inr (msg @ concat (map (spec_line w recentPeak)
                (filter (spec_qualifies w recentPeak recentTrend th) ts)))"
  using assms(2)
proof (induction ts arbitrary: msg tr)
  case Nil
  show ?case by simp
next
  case (Cons t ts)
  have here: "\<forall>close. history w recentPeak t = Inr close \<longrightarrow> recentTrend \<le> int (length close)"
    using Cons.prems by simp
  have rest: "\<forall>u\<in>set ts. \<forall>close. history w recentPeak u = Inr close
            \<longrightarrow> recentTrend \<le> int (length close)"
    using Cons.prems by simp
  obtain ev where b: "ticker_body w recentPeak recentTrend th debug t
      = (Inr (if spec_qualifies w recentPeak recentTrend th t then spec_line w recentPeak t
              else []), ev)"
    using body_as_spec [OF assms(1) here, of th debug]
    by (cases "ticker_body w recentPeak recentTrend th debug t") simp
  show ?case using b Cons.IH [OF rest] by simp
qed

lemma loop_short_history_raises:
  assumes "1 \<le> recentTrend"
    and "\<exists>t\<in>set ts. \<exists>close. history w recentPeak t = Inr close
            \<and> int (length close) < recentTrend"
  shows "fst (tickers_loop w recentPeak recentTrend th debug ts msg tr) = Inl IndexError"
  using assms(2)
proof (induction ts arbitrary: msg tr)
  case Nil
  then show ?case by simp
next
  case (Cons t ts)
  show ?case
  proof (cases "\<exists>close. history w recentPeak t = Inr close \<and> int (length close) < recentTrend")
    case True
    then obtain close where c: "history w recentPeak t = Inr close"
      "int (length close) < recentTrend" by blast
    show ?thesis using short_history_index_error [OF c, of th debug] by simp
  next
    case False
    then have here: "\<forall>close. history w recentPeak t = Inr close
        \<longrightarrow> recentTrend \<le> int (length close)" by auto
    have rest: "\<exists>u\<in>set ts. \<exists>close. history w recentPeak u = Inr close
        \<and> int (length close) < recentTrend"
      using Cons.prems False by auto
    obtain ev where b: "ticker_body w recentPeak recentTrend th debug t
      = (Inr (if spec_qualifies w recentPeak recentTrend th t then spec_line w recentPeak t
              else []), ev)"
      using body_as_spec [OF assms(1) here, of th debug]
      by (cases "ticker_body w recentPeak recentTrend th debug t") simp
    show ?thesis using b Cons.IH [OF rest] by simp
  qed
qed

subsection \<open>The notifications of a run\<close>

lemma log_no_post: "filter is_post (log d l) = []"
  by (simp add: log_def)

lemma body_no_post: "filter is_post (snd (ticker_body w rp rt th d t)) = []"
  by (simp add: ticker_body_def Let_def log_no_post split: sum.splits)

lemma loop_no_post:
  "filter is_post (snd (tickers_loop w rp rt th d ts msg tr)) = filter is_post tr"
proof (induction ts arbitrary: msg tr)
  case Nil
  show ?case by simp
next
  case (Cons t ts)
  show ?case
  proof (cases "ticker_body w rp rt th d t")
    case (Pair r ev)
    have ev: "filter is_post ev = []" using body_no_post [of w rp rt th d t] Pair by simp
    show ?thesis
    proof (cases r)
      case (Inl e)
      with Pair ev show ?thesis by simp
    next
      case (Inr s)
      with Pair ev show ?thesis using Cons.IH [of "msg @ s" "tr @ ev"] by simp
    qed
  qed
qed

lemma create_no_post: "filter is_post (snd (create_ticker_message w ts rp rt th d)) = []"
  by (simp add: create_ticker_message_def loop_no_post log_no_post)

lemma send_message_result:
  "send_message w b c m d = (Inr (post w b c m = Inr 200), snd (send_message w b c m d))"
  by (cases "post w b c m") (simp_all add: send_message_def OK_def Let_def)

lemma send_message_one_post: "filter is_post (snd (send_message w b c m d)) = [Post b c m]"
  by (cases "post w b c m") (simp_all add: send_message_def Let_def log_no_post)

lemma main_started:
  assumes "started w c"
  shows "main w = after_config w c []"
proof (cases "cfg_loggingEnabled c")
  case False
  then show ?thesis using assms by (simp add: started_def main_def)
next
  case True
  then obtain u where "logging_setup w (cfg_logFileName c) = Inr u"
    using assms by (cases "logging_setup w (cfg_logFileName c)") (simp_all add: started_def)
  then show ?thesis using assms True by (simp add: started_def main_def)
qed

lemma detected_pair:
  "create_ticker_message w (cfg_tickers c) (cfg_recentPeak c) (cfg_recentTrend c)
      (cfg_percentDropped c) (cfg_loggingEnabled c)
   = (detected w c,
      snd (create_ticker_message w (cfg_tickers c) (cfg_recentPeak c) (cfg_recentTrend c)
        (cfg_percentDropped c) (cfg_loggingEnabled c)))"
  by (simp add: detected_def)

lemma after_config_alert:
  assumes "cfg_recentTrend c \<le> cfg_recentPeak c" and "detected w c = Inr m" and "m \<noteq> []"
  shows "fst (after_config w c []) =
           Inr (if post w (cfg_telegramBotId c) (cfg_telegramChatId c) m = Inr 200
                then 0 else - 1)
       \<and> filter is_post (snd (after_config w c []))
           = [Post (cfg_telegramBotId c) (cfg_telegramChatId c) m]"
proof -
  obtain ev where cr: "create_ticker_message w (cfg_tickers c) (cfg_recentPeak c)
      (cfg_recentTrend c) (cfg_percentDropped c) (cfg_loggingEnabled c) = (Inr m, ev)"
    and ev: "filter is_post ev = []"
    using detected_pair [of w c] assms(2) create_no_post by metis
  obtain ev' where sm: "send_message w (cfg_telegramBotId c) (cfg_telegramChatId c) m
      (cfg_loggingEnabled c)
      = (Inr (post w (cfg_telegramBotId c) (cfg_telegramChatId c) m = Inr 200), ev')"
    and ev': "filter is_post ev' = [Post (cfg_telegramBotId c) (cfg_telegramChatId c) m]"
    using send_message_result send_message_one_post by metis
  show ?thesis using assms(1,3) cr ev sm ev'
    by (simp add: after_config_def log_no_post)
qed

lemma after_config_quiet:
  assumes "cfg_recentTrend c \<le> cfg_recentPeak c" and "detected w c = Inr []"
    and "probe w = Inr True"
  shows "fst (after_config w c []) = Inr 0
       \<and> filter is_post (snd (after_config w c [])) = []"
proof -
  obtain ev where cr: "create_ticker_message w (cfg_tickers c) (cfg_recentPeak c)
      (cfg_recentTrend c) (cfg_percentDropped c) (cfg_loggingEnabled c) = (Inr [], ev)"
    and ev: "filter is_post ev = []"
    using detected_pair [of w c] assms(2) create_no_post by metis
  show ?thesis using assms(1,3) cr ev by (simp add: after_config_def)
qed

lemma after_config_outage:
  assumes "cfg_recentTrend c \<le> cfg_recentPeak c" and "detected w c = Inr []"
    and "probe w \<noteq> Inr True"
  shows "fst (after_config w c []) = Inr (- 1)
       \<and> length (filter is_post (snd (after_config w c []))) = 1"
proof -
  obtain ev where cr: "create_ticker_message w (cfg_tickers c) (cfg_recentPeak c)
      (cfg_recentTrend c) (cfg_percentDropped c) (cfg_loggingEnabled c) = (Inr [], ev)"
    and ev: "filter is_post ev = []"
    using detected_pair [of w c] assms(2) create_no_post by metis
  obtain e where pr: "(case probe w of Inl e \<Rightarrow> Some e
      | Inr b \<Rightarrow> if b then None else Some AssertionError) = Some e"
    using assms(3) by (cases "probe w") auto
  obtain ev' where sm: "send_message w (cfg_telegramBotId c) (cfg_telegramChatId c)
      (probe_text e) (cfg_loggingEnabled c)
      = (Inr (post w (cfg_telegramBotId c) (cfg_telegramChatId c) (probe_text e) = Inr 200), ev')"
    and ev': "filter is_post ev'
      = [Post (cfg_telegramBotId c) (cfg_telegramChatId c) (probe_text e)]"
    using send_message_result send_message_one_post by metis
  show ?thesis using assms(1) cr ev pr sm ev'
    by (simp add: after_config_def log_no_post)
qed

lemmas world_defs =
  world_send_fails_def world_bad_windows_def world_no_config_def world_no_log_def
  world_quiet_def world_outage_def world_short_history_def

subsection \<open>Claims\<close>

text \<open>
  C6. \<open>send_message\<close> returns, whatever the POST does: it returns true exactly when
  the POST completes with status 200, and false when the POST raises or answers with
  another status. No exception leaves it.
\<close>

theorem send_message_true_iff_200:
  "fst (send_message w botID chatID message debug)
     = Inr (post w botID chatID message = Inr 200)"
  by (cases "post w botID chatID message") (simp_all add: send_message_def OK_def Let_def)

theorem send_message_true_iff_200_witness:
  "fst (send_message sample_world ''bot'' ''chat'' ''hello'' True) = Inr True
   \<and> fst (send_message world_send_fails ''bot'' ''chat'' ''hello'' True) = Inr False"
  using send_message_true_iff_200 [of sample_world "''bot''" "''chat''" "''hello''" True]
    send_message_true_iff_200 [of world_send_fails "''bot''" "''chat''" "''hello''" True]
  by (simp add: sample_world_def world_send_fails_def)

text \<open>
  C4. When the fetch of a ticker's history raises, the pass for that ticker appends
  nothing and raises nothing, it writes an error line when logging is enabled, and the
  detector's result on the whole list is its result on the list without that ticker.
\<close>

theorem fetch_error_skips_ticker:
  assumes "history w recentPeak t = Inl e"
  shows "ticker_body w recentPeak recentTrend th debug t
           = (Inr [], log debug DEBUG @ [Fetch recentPeak t] @ log debug ERROR)
       \<and> fst (create_ticker_message w (xs @ t # ys) recentPeak recentTrend th debug)
           = fst (create_ticker_message w (xs @ ys) recentPeak recentTrend th debug)"
proof -
  have b: "ticker_body w recentPeak recentTrend th debug t
           = (Inr [], log debug DEBUG @ [Fetch recentPeak t] @ log debug ERROR)"
    using assms by (simp add: ticker_body_def Let_def)
  then have "fst (ticker_body w recentPeak recentTrend th debug t) = Inr []" by simp
  then show ?thesis using b create_skip by blast
qed

theorem fetch_error_skips_ticker_witness:
  "history sample_world 30 ''GONE'' = Inl (OtherError ''symbol not found'')
   \<and> ticker_body sample_world 30 2 15 True ''GONE''
       = (Inr [], [Log DEBUG, Fetch 30 ''GONE'', Log ERROR])
   \<and> fst (create_ticker_message sample_world [''TICKER'', ''GONE'', ''DIP''] 30 2 15 True)
       = fst (create_ticker_message sample_world [''TICKER'', ''DIP''] 30 2 15 True)"
proof -
  have h: "history sample_world 30 ''GONE'' = Inl (OtherError ''symbol not found'')"
    by (simp add: sample_world_def market_def)
  show ?thesis
    using h fetch_error_skips_ticker [OF h, of 2 15 True "[''TICKER'']" "[''DIP'']"]
    by (simp add: log_def)
qed

text \<open>
  C2. When the closing price \<open>recentTrend\<close>-th from last is strictly below the last
  closing price, the pass for that ticker appends nothing, whatever its drawdown, and the
  detector's result is its result on the list without that ticker.
\<close>

theorem rising_trend_excluded:
  assumes "history w recentPeak t = Inr close"
    and "1 \<le> recentTrend" and "recentTrend \<le> int (length close)"
    and "rev close ! (nat recentTrend - 1) < last close"
  shows "ticker_body w recentPeak recentTrend th debug t
           = (Inr [], log debug DEBUG @ [Fetch recentPeak t] @ log debug DEBUG)
       \<and> fst (create_ticker_message w (xs @ t # ys) recentPeak recentTrend th debug)
           = fst (create_ticker_message w (xs @ ys) recentPeak recentTrend th debug)"
proof -
  have ne: "close \<noteq> []" using assms(2,3) by auto
  have g1: "get close (- recentTrend) = Inr (rev close ! (nat recentTrend - 1))"
    using assms(2,3) by (rule get_from_end)
  have g2: "get close TODAY = Inr (last close)"
    unfolding TODAY_def using ne by (rule get_today)
  have b: "ticker_body w recentPeak recentTrend th debug t
           = (Inr [], log debug DEBUG @ [Fetch recentPeak t] @ log debug DEBUG)"
    using assms(1,4) g1 g2 by (simp add: ticker_body_def Let_def)
  then have "fst (ticker_body w recentPeak recentTrend th debug t) = Inr []" by simp
  then show ?thesis using b create_skip by blast
qed

theorem rising_trend_excluded_witness:
  "history sample_world 30 ''UP'' = Inr [100, 50, 60]
   \<and> ticker_body sample_world 30 2 15 False ''UP'' = (Inr [], [Fetch 30 ''UP''])
   \<and> fst (create_ticker_message sample_world [''TICKER'', ''UP'', ''DIP''] 30 2 15 False)
       = fst (create_ticker_message sample_world [''TICKER'', ''DIP''] 30 2 15 False)"
proof -
  have h: "history sample_world 30 ''UP'' = Inr [100, 50, 60]"
    by (simp add: sample_world_def market_def)
  have a: "(1::int) \<le> 2" by simp
  have b: "(2::int) \<le> int (length [100, 50, 60 :: rat])" by simp
  have c: "rev [100, 50, 60 :: rat] ! (nat 2 - 1) < last [100, 50, 60]" by simp
  show ?thesis
    using h rising_trend_excluded [OF h a b c, of 15 False "[''TICKER'']" "[''DIP'']"]
    by (simp add: log_def)
qed

text \<open>
  C10. With \<open>recentTrend = 1\<close> and a non-empty history the trend test compares the
  last closing price with itself and never skips: the pass takes the drawdown branch,
  and the threshold alone decides whether the line is appended.
\<close>

theorem trend_one_never_skips:
  assumes "history w recentPeak t = Inr close" and "close \<noteq> []"
  shows "ticker_body w recentPeak 1 th debug t
       = (Inr (if flt (percent_dropped (last close) (max_price close 0)) (- th)
               then alert_line t (percent_dropped (last close) (max_price close 0))
               else []),
          log debug DEBUG @ [Fetch recentPeak t] @ log debug DEBUG @ log debug DEBUG)"
proof -
  have g: "get close (- 1) = Inr (last close)" using assms(2) by (rule get_today)
  show ?thesis using assms(1) g by (simp add: ticker_body_def TODAY_def Let_def)
qed

theorem trend_one_never_skips_witness:
  "history sample_world 30 ''UP'' = Inr [100, 50, 60]
   \<and> ticker_body sample_world 30 1 15 False ''UP''
       = (Inr (''UP dropped 40.0%'' @ [CHR 0x0A]), [Fetch 30 ''UP''])"
proof -
  have h: "history sample_world 30 ''UP'' = Inr [100, 50, 60]"
    by (simp add: sample_world_def market_def)
  have ne: "[100, 50, 60 :: rat] \<noteq> []" by simp
  show ?thesis
    using h trend_one_never_skips [OF h ne, of 15 False]
    by (simp add: log_def drop_60_100 alert_line_def text_40)
qed

text \<open>
  C1. For a ticker that passes the trend test, in a window whose highest price is a
  positive double and whose last price is not negative, and for a threshold that is
  not negative (the configured threshold is a positive number): the pass appends its line exactly when the drawdown that line 115
  computes, \<open>(priceToday - maxPrice) / maxPrice * 100\<close> in doubles, is strictly below
  minus the threshold. The line is the ticker, \<open>dropped\<close>, a number, a percent sign and
  a newline; the number is written with at most two decimals, it is a whole number
  \<open>k\<close> of hundredths between 0 and 100 percent, and it lies within half a hundredth
  (and the rounding error of one multiplication) of the magnitude of the computed
  drawdown. A window with highest price 100 and last price 80 gives
  \<open>TICKER dropped 20.0%\<close> at threshold 15 and nothing at thresholds 20 and 25.
\<close>

theorem alert_iff_drop_exceeds_threshold:
  assumes "history w recentPeak t = Inr close"
    and "1 \<le> recentTrend" and "recentTrend \<le> int (length close)"
    and "\<not> rev close ! (nat recentTrend - 1) < last close"
    and "\<exists>p\<in>set close. 0 < p" and "0 \<le> last close"
    and "is_double (Max (set close))"
    and "0 \<le> th"
    and "pd = percent_dropped (last close) (Max (set close))"
    and "k = hundredths (fneg pd)"
  shows "fst (ticker_body w recentPeak recentTrend th debug t)
           = Inr (if flt pd (- th)
                  then t @ '' dropped '' @ str_hundredths (nat k) @ ''%'' @ [CHR 0x0A]
                  else [])
       \<and> 0 \<le> k \<and> k \<le> 10000
       \<and> (case pd of
            Fin a \<Rightarrow> - 100 \<le> a \<and> a \<le> 0
              \<and> \<bar>of_int k - (- a) * 100\<bar> \<le> 1 / 2 + 1 / 2 ^ 40
          | NZero \<Rightarrow> k = 0
          | _ \<Rightarrow> False)"
proof -
  have ne: "close \<noteq> []" using assms(2,3) by auto
  have g1: "get close (- recentTrend) = Inr (rev close ! (nat recentTrend - 1))"
    using assms(2,3) by (rule get_from_end)
  have g2: "get close (- 1) = Inr (last close)" using ne by (rule get_today)
  have m: "max_price close 0 = Max (set close)" using assms(5) by (rule max_price_positive)
  from assms(5) obtain p where p: "p \<in> set close" "0 < p" by blast
  have "p \<le> Max (set close)" using p by simp
  then have pos: "0 < Max (set close)" using p by linarith
  have le: "last close \<le> Max (set close)" using ne by simp
  have np: "nonpos pd" unfolding assms(9) using le pos by (rule percent_dropped_nonpos)
  have mg: "mag_le pd 100"
    unfolding assms(9) using assms(6) le pos assms(7) by (rule percent_dropped_bounds)
  have body: "fst (ticker_body w recentPeak recentTrend th debug t)
      = Inr (if flt pd (- th) then alert_line t pd else [])"
    using assms(1,4) g1 g2 by (simp add: ticker_body_def TODAY_def Let_def m assms(9))
  show ?thesis
  proof (cases pd)
    case (Fin a)
    have a: "a \<le> 0" "- 100 \<le> a" using np mg Fin by (simp_all add: abs_le_iff)
    show ?thesis
    proof (cases "a = 0")
      case True
      have k0: "k = 0" by (simp add: assms(10) Fin True hundredths_def)
      have "\<not> flt pd (- th)" using assms(8) Fin True by simp
      then show ?thesis using body k0 Fin True by simp
    next
      case False
      have x: "0 < - a" "- a \<le> 100" using a False by simp_all
      have f: "fneg pd = Fin (- a)" using Fin False by simp
      note r = round2_text [OF x]
      have k: "hundredths (Fin (- a)) = k" by (simp only: assms(10) f)
      have line: "alert_line t pd
          = t @ '' dropped '' @ str_hundredths (nat k) @ ''%'' @ [CHR 0x0A]"
        using r by (simp only: alert_line_def f k)
      have res: "fst (ticker_body w recentPeak recentTrend th debug t)
           = Inr (if flt pd (- th)
                  then t @ '' dropped '' @ str_hundredths (nat k) @ ''%'' @ [CHR 0x0A]
                  else [])"
        by (simp only: body line)
      have b: "0 \<le> k \<and> k \<le> 10000 \<and> \<bar>of_int k - (- a) * 100\<bar> \<le> 1 / 2 + 1 / 2 ^ 40"
        using r by (simp only: k)
      show ?thesis using res b a Fin by simp
    qed
  next
    case NZero
    have k0: "k = 0" by (simp add: assms(10) NZero hundredths_def round_half_even_0)
    have "\<not> flt pd (- th)" using assms(8) NZero by simp
    then show ?thesis using body k0 NZero by simp
  next
    case PInf
    then show ?thesis using np by simp
  next
    case NInf
    then show ?thesis using mg by simp
  next
    case NaN
    then show ?thesis using np by simp
  qed
qed

theorem alert_iff_drop_exceeds_threshold_witness:
  "history sample_world 30 ''TICKER'' = Inr [100, 90, 80]
   \<and> Max (set [100, 90, 80 :: rat]) = 100 \<and> last [100, 90, 80 :: rat] = 80
   \<and> is_double 100
   \<and> percent_dropped 80 100 = Fin (- 20)
   \<and> fst (ticker_body sample_world 30 2 15 False ''TICKER'')
       = Inr (''TICKER dropped 20.0%'' @ [CHR 0x0A])
   \<and> fst (ticker_body sample_world 30 2 20 False ''TICKER'') = Inr []
   \<and> fst (ticker_body sample_world 30 2 25 False ''TICKER'') = Inr []
   \<and> history sample_world 30 ''EDGE'' = Inr [100, 93]
   \<and> flt (percent_dropped 93 100) (- 7)
   \<and> fst (ticker_body sample_world 30 2 7 False ''EDGE'')
       = Inr (''EDGE dropped 7.0%'' @ [CHR 0x0A])
   \<and> history sample_world 30 ''HALF'' = Inr [160, 67]
   \<and> fst (ticker_body sample_world 30 2 15 False ''HALF'')
       = Inr (''HALF dropped 58.13%'' @ [CHR 0x0A])"
proof -
  have h: "history sample_world 30 ''TICKER'' = Inr [100, 90, 80]"
    by (simp add: sample_world_def market_def)
  have a: "(1::int) \<le> 2" by simp
  have b: "(2::int) \<le> int (length [100, 90, 80 :: rat])" by simp
  have c: "\<not> rev [100, 90, 80 :: rat] ! (nat 2 - 1) < last [100, 90, 80]" by simp
  have d: "\<exists>p\<in>set [100, 90, 80 :: rat]. 0 < p" by simp
  have e: "(0::rat) \<le> last [100, 90, 80]" by simp
  have f: "is_double (Max (set [100, 90, 80]))" by (simp add: is_double_100)
  have h': "history sample_world 30 ''EDGE'' = Inr [100, 93]"
    by (simp add: sample_world_def market_def)
  have b': "(2::int) \<le> int (length [100, 93 :: rat])" by simp
  have c': "\<not> rev [100, 93 :: rat] ! (nat 2 - 1) < last [100, 93]" by simp
  have d': "\<exists>p\<in>set [100, 93 :: rat]. 0 < p" by simp
  have e': "(0::rat) \<le> last [100, 93]" by simp
  have f': "is_double (Max (set [100, 93]))" by (simp add: is_double_100)
  have h'': "history sample_world 30 ''HALF'' = Inr [160, 67]"
    by (simp add: sample_world_def market_def)
  have b'': "(2::int) \<le> int (length [160, 67 :: rat])" by simp
  have c'': "\<not> rev [160, 67 :: rat] ! (nat 2 - 1) < last [160, 67]" by simp
  have d'': "\<exists>p\<in>set [160, 67 :: rat]. 0 < p" by simp
  have e'': "(0::rat) \<le> last [160, 67]" by simp
  have f'': "is_double (Max (set [160, 67]))" by (simp add: is_double_160)
  have t15: "(0::rat) \<le> 15" and t20: "(0::rat) \<le> 20" and t25: "(0::rat) \<le> 25"
    and t7: "(0::rat) \<le> 7" by simp_all
  note texts = str_hundredths_def dec.simps digit_def
  have r1: "fst (ticker_body sample_world 30 2 15 False ''TICKER'')
       = Inr (''TICKER dropped 20.0%'' @ [CHR 0x0A])"
    using alert_iff_drop_exceeds_threshold [OF h a b c d e f t15 refl refl, of False]
    by (simp add: drop_80_100 hund_20 texts)
  have r2: "fst (ticker_body sample_world 30 2 20 False ''TICKER'') = Inr []"
    using alert_iff_drop_exceeds_threshold [OF h a b c d e f t20 refl refl, of False]
    by (simp add: drop_80_100 hund_20)
  have r3: "fst (ticker_body sample_world 30 2 25 False ''TICKER'') = Inr []"
    using alert_iff_drop_exceeds_threshold [OF h a b c d e f t25 refl refl, of False]
    by (simp add: drop_80_100 hund_20)
  have r4: "fst (ticker_body sample_world 30 2 7 False ''EDGE'')
       = Inr (''EDGE dropped 7.0%'' @ [CHR 0x0A])"
    using alert_iff_drop_exceeds_threshold [OF h' a b' c' d' e' f' t7 refl refl, of False]
    by (simp add: drop_93_100 hund_7 texts)
  have r5: "fst (ticker_body sample_world 30 2 15 False ''HALF'')
       = Inr (''HALF dropped 58.13%'' @ [CHR 0x0A])"
    using alert_iff_drop_exceeds_threshold [OF h'' a b'' c'' d'' e'' f'' t15 refl refl, of False]
    by (simp add: drop_67_160 hund_58_13 texts)
  show ?thesis
    using h h' h'' r1 r2 r3 r4 r5 by (simp add: is_double_100 drop_80_100 drop_93_100)
qed

text \<open>
  C3. When the window holds a positive price, \<open>maxPrice\<close> is the highest closing price
  of the whole window, the last price is at most \<open>maxPrice\<close>, and the drawdown that
  line 115 computes, \<open>(priceToday - maxPrice) / maxPrice * 100\<close> in doubles, is not
  positive, as the exact quotient is not; it is a finite number, of magnitude at most
  100, when the last price is not negative and the highest price is a double.
\<close>

theorem drawdown_non_positive:
  assumes "\<exists>p\<in>set close. 0 < p"
  shows "get close (- 1) = Inr (last close)
       \<and> max_price close 0 = Max (set close)
       \<and> last close \<le> max_price close 0
       \<and> percent_dropped (last close) (max_price close 0)
           = fmul (fdiv (fsub (last close) (Max (set close))) (Max (set close))) 100
       \<and> nonpos (percent_dropped (last close) (max_price close 0))
       \<and> (0 \<le> last close \<and> is_double (Max (set close))
            \<longrightarrow> mag_le (percent_dropped (last close) (max_price close 0)) 100)
       \<and> (last close - Max (set close)) / Max (set close) * 100 \<le> 0"
proof -
  from assms obtain p where p: "p \<in> set close" "0 < p" by blast
  have ne: "close \<noteq> []" using p by auto
  have m: "max_price close 0 = Max (set close)" using assms by (rule max_price_positive)
  have "p \<le> Max (set close)" using p by simp
  then have pos: "0 < Max (set close)" using p by linarith
  have le: "last close \<le> Max (set close)" using ne by simp
  have pd: "percent_dropped (last close) (max_price close 0)
           = fmul (fdiv (fsub (last close) (Max (set close))) (Max (set close))) 100"
    by (simp add: percent_dropped_def m)
  have sg: "nonpos (percent_dropped (last close) (max_price close 0))"
    unfolding m using le pos by (rule percent_dropped_nonpos)
  have fin: "0 \<le> last close \<and> is_double (Max (set close))
      \<longrightarrow> mag_le (percent_dropped (last close) (max_price close 0)) 100"
    unfolding m using le pos by (simp add: percent_dropped_bounds)
  have "(last close - Max (set close)) / Max (set close) \<le> 0"
    using le pos by (simp add: divide_le_0_iff)
  then have np: "(last close - Max (set close)) / Max (set close) * 100 \<le> 0"
    by (rule mult_nonpos_nonneg) simp
  show ?thesis using get_today [OF ne] m le pd sg fin np by simp
qed

theorem drawdown_non_positive_witness:
  "(\<exists>p\<in>set [100, 90, 80 :: rat]. 0 < p)
   \<and> 0 \<le> last [100, 90, 80 :: rat] \<and> is_double (Max (set [100, 90, 80]))
   \<and> max_price [100, 90, 80] 0 = 100
   \<and> percent_dropped 80 (max_price [100, 90, 80] 0) = Fin (- 20)
   \<and> nonpos (percent_dropped 80 (max_price [100, 90, 80] 0))
   \<and> mag_le (percent_dropped 80 (max_price [100, 90, 80] 0)) 100"
proof -
  have h: "\<exists>p\<in>set [100, 90, 80 :: rat]. 0 < p" by simp
  have d: "is_double (Max (set [100, 90, 80]))" by (simp add: is_double_100)
  note t = drawdown_non_positive [OF h]
  have s: "nonpos (percent_dropped 80 (max_price [100, 90, 80] 0))"
    using t [THEN conjunct2, THEN conjunct2, THEN conjunct2, THEN conjunct2, THEN conjunct1]
    by simp
  have f: "mag_le (percent_dropped 80 (max_price [100, 90, 80] 0)) 100"
    using d t [THEN conjunct2, THEN conjunct2, THEN conjunct2, THEN conjunct2, THEN conjunct2,
      THEN conjunct1]
    by simp
  show ?thesis using h d s f by (simp add: drop_80_100)
qed

text \<open>
  C5. A history shorter than \<open>recentTrend\<close>: the index from the end is outside the
  series, the exception is raised outside the \<open>try\<close> that guards the fetch, and it
  leaves the detector and the run; the ticker after it, which would be reported, is
  never looked at.
\<close>

theorem short_history_aborts_run:
  "history world_short_history 30 ''NEW'' = Inr [10, 9]
   \<and> fst (create_ticker_message world_short_history [''NEW'', ''TICKER''] 30 3 15 True)
       = Inl IndexError
   \<and> fst (create_ticker_message world_short_history [''TICKER''] 30 3 15 True)
       = Inr (''TICKER dropped 20.0%'' @ [CHR 0x0A])
   \<and> fst (main world_short_history) = Inl IndexError
   \<and> exit_status world_short_history = 1"
  by (simp add: run_defs world_short_history_def)

text \<open>
  C8. With a loaded configuration in which \<open>recentPeak < recentTrend\<close> the run ends at
  the assertion (or before it, when the log file cannot be set up): no fetch, no probe
  and no POST is among its events.
\<close>

theorem bad_windows_no_network:
  assumes "config_file w = Inr c" and "cfg_recentPeak c < cfg_recentTrend c"
  shows "(main w = (Inl AssertionError, []) \<or> main w = (Inr (- 1), [Print]))
       \<and> filter is_network (snd (main w)) = []"
proof (cases "cfg_loggingEnabled c")
  case False
  then have "main w = (Inl AssertionError, [])"
    using assms by (simp add: main_def after_config_def)
  then show ?thesis by simp
next
  case True
  show ?thesis
  proof (cases "logging_setup w (cfg_logFileName c)")
    case (Inl e)
    then have "main w = (Inr (- 1), [Print])"
      using assms True by (simp add: main_def)
    then show ?thesis by simp
  next
    case (Inr u)
    then have "main w = (Inl AssertionError, [])"
      using assms True by (simp add: main_def after_config_def)
    then show ?thesis by simp
  qed
qed

theorem bad_windows_no_network_witness:
  "config_file world_bad_windows
     = Inr (sample_config \<lparr> cfg_recentPeak := 3, cfg_recentTrend := 5 \<rparr>)
   \<and> main world_bad_windows = (Inl AssertionError, [])
   \<and> filter is_network (snd (main world_bad_windows)) = []"
proof -
  have h: "config_file world_bad_windows
     = Inr (sample_config \<lparr> cfg_recentPeak := 3, cfg_recentTrend := 5 \<rparr>)"
    by (simp add: world_bad_windows_def sample_world_def)
  have lt: "cfg_recentPeak (sample_config \<lparr> cfg_recentPeak := 3, cfg_recentTrend := 5 \<rparr>)
      < cfg_recentTrend (sample_config \<lparr> cfg_recentPeak := 3, cfg_recentTrend := 5 \<rparr>)"
    by simp
  have "main world_bad_windows \<noteq> (Inr (- 1), [Print])"
    by (simp add: main_def after_config_def world_bad_windows_def sample_world_def
        sample_config_def)
  then show ?thesis
    using h bad_windows_no_network [OF h lt] by simp
qed

text \<open>
  C9. For every list of tickers (and a trend window of at least one day), what the
  detector returns is the concatenation, in input order, of the lines of the tickers
  that qualify; the other tickers contribute nothing. It returns exactly when no fetched
  history is shorter than \<open>recentTrend\<close>. For no tickers it returns the empty string.
\<close>

theorem message_is_concatenation:
  assumes "1 \<le> recentTrend"
  shows "(\<forall>m. fst (create_ticker_message w tickers recentPeak recentTrend th debug) = Inr m
           \<longrightarrow> m = concat (map (spec_line w recentPeak)
                      (filter (spec_qualifies w recentPeak recentTrend th) tickers)))
       \<and> ((\<exists>m. fst (create_ticker_message w tickers recentPeak recentTrend th debug) = Inr m)
          \<longleftrightarrow> (\<forall>t\<in>set tickers. \<forall>close. history w recentPeak t = Inr close
                  \<longrightarrow> recentTrend \<le> int (length close)))
       \<and> fst (create_ticker_message w [] recentPeak recentTrend th debug) = Inr []"
proof (cases "\<forall>t\<in>set tickers. \<forall>close. history w recentPeak t = Inr close
                  \<longrightarrow> recentTrend \<le> int (length close)")
  case True
  have "fst (create_ticker_message w tickers recentPeak recentTrend th debug)
       = Inr ([] @ concat (map (spec_line w recentPeak)
                (filter (spec_qualifies w recentPeak recentTrend th) tickers)))"
    unfolding create_ticker_message_def using assms True by (rule loop_as_spec)
  then show ?thesis using True by (simp add: create_ticker_message_def)
next
  case False
  then have "\<exists>t\<in>set tickers. \<exists>close. history w recentPeak t = Inr close
            \<and> int (length close) < recentTrend" by (auto simp: not_le)
  then have "fst (create_ticker_message w tickers recentPeak recentTrend th debug)
      = Inl IndexError"
    unfolding create_ticker_message_def using assms by (intro loop_short_history_raises)
  then show ?thesis using False by (simp add: create_ticker_message_def)
qed

theorem message_is_concatenation_witness:
  "(1::int) \<le> 2
   \<and> filter (spec_qualifies sample_world 30 2 15) [''DIP'', ''GONE'', ''UP'', ''TICKER'']
       = [''DIP'', ''TICKER'']
   \<and> fst (create_ticker_message sample_world [''DIP'', ''GONE'', ''UP'', ''TICKER''] 30 2 15 True)
       = Inr (''DIP dropped 22.5%'' @ [CHR 0x0A] @ ''TICKER dropped 20.0%'' @ [CHR 0x0A])
   \<and> fst (create_ticker_message sample_world [] 30 2 15 True) = Inr []"
proof -
  let ?ts = "[''DIP'', ''GONE'', ''UP'', ''TICKER'']"
  have a: "(1::int) \<le> 2" by simp
  have b: "\<forall>t\<in>set ?ts. \<forall>close.
      history sample_world 30 t = Inr close \<longrightarrow> 2 \<le> int (length close)"
    by (auto simp add: sample_world_def market_def)
  have q: "filter (spec_qualifies sample_world 30 2 15) ?ts = [''DIP'', ''TICKER'']"
    by (simp add: spec_qualifies_def sample_world_def market_def drop_80_100 drop_31_40)
  have l1: "spec_line sample_world 30 ''DIP'' = ''DIP dropped 22.5%'' @ [CHR 0x0A]"
    by (simp add: spec_line_def sample_world_def market_def alert_line_def
        drop_80_100 drop_31_40 text_20 text_22_5)
  have l2: "spec_line sample_world 30 ''TICKER'' = ''TICKER dropped 20.0%'' @ [CHR 0x0A]"
    by (simp add: spec_line_def sample_world_def market_def alert_line_def
        drop_80_100 drop_31_40 text_20 text_22_5)
  note c = message_is_concatenation [OF a, of sample_world ?ts 30 15 True]
  obtain m where m: "fst (create_ticker_message sample_world ?ts 30 2 15 True) = Inr m"
    using c [THEN conjunct2, THEN conjunct1] b by blast
  have "m = concat (map (spec_line sample_world 30)
      (filter (spec_qualifies sample_world 30 2 15) ?ts))"
    using c [THEN conjunct1] m by blast
  then have "m = ''DIP dropped 22.5%'' @ [CHR 0x0A] @ ''TICKER dropped 20.0%'' @ [CHR 0x0A]"
    by (simp only: q) (simp add: l1 l2)
  then show ?thesis using a q m c [THEN conjunct2, THEN conjunct2] by simp
qed

text \<open>
  C7, as amended. \<open>main\<close> returns \<open>-1\<close> when the configuration cannot be loaded, when
  the log file cannot be set up, when the alert cannot be sent, and when there is
  nothing to report and the probe of the provider fails (after exactly one
  notification attempt); it returns 0 when the alert is sent, and when there is nothing
  to report and the probe succeeds (with no notification). A configuration with
  \<open>recentPeak < recentTrend\<close> makes it raise \<open>AssertionError\<close> instead of returning.
\<close>

theorem main_return_value:
  "(\<forall>e. config_file w = Inl e \<longrightarrow> main w = (Inr (- 1), [Print]))
   \<and> (\<forall>c e. config_file w = Inr c \<and> cfg_loggingEnabled c
          \<and> logging_setup w (cfg_logFileName c) = Inl e
        \<longrightarrow> main w = (Inr (- 1), [Print]))
   \<and> (\<forall>c. started w c \<and> cfg_recentPeak c < cfg_recentTrend c
        \<longrightarrow> main w = (Inl AssertionError, []))
   \<and> (\<forall>c m. started w c \<and> cfg_recentTrend c \<le> cfg_recentPeak c
          \<and> detected w c = Inr m \<and> m \<noteq> []
        \<longrightarrow> fst (main w)
              = Inr (if post w (cfg_telegramBotId c) (cfg_telegramChatId c) m = Inr 200
                     then 0 else - 1)
          \<and> filter is_post (snd (main w))
              = [Post (cfg_telegramBotId c) (cfg_telegramChatId c) m])
   \<and> (\<forall>c. started w c \<and> cfg_recentTrend c \<le> cfg_recentPeak c
          \<and> detected w c = Inr [] \<and> probe w = Inr True
        \<longrightarrow> fst (main w) = Inr 0 \<and> filter is_post (snd (main w)) = [])
   \<and> (\<forall>c. started w c \<and> cfg_recentTrend c \<le> cfg_recentPeak c
          \<and> detected w c = Inr [] \<and> probe w \<noteq> Inr True
        \<longrightarrow> fst (main w) = Inr (- 1) \<and> length (filter is_post (snd (main w))) = 1)"
proof -
  have no_file: "\<forall>e. config_file w = Inl e \<longrightarrow> main w = (Inr (- 1), [Print])"
    by (simp add: main_def)
  have no_log: "\<forall>c e. config_file w = Inr c \<and> cfg_loggingEnabled c
          \<and> logging_setup w (cfg_logFileName c) = Inl e
        \<longrightarrow> main w = (Inr (- 1), [Print])"
    by (simp add: main_def)
  have bad: "\<forall>c. started w c \<and> cfg_recentPeak c < cfg_recentTrend c
        \<longrightarrow> main w = (Inl AssertionError, [])"
  proof (intro allI impI)
    fix c
    assume a: "started w c \<and> cfg_recentPeak c < cfg_recentTrend c"
    then have "main w = after_config w c []" using main_started by blast
    moreover have "after_config w c [] = (Inl AssertionError, [])"
      using a by (simp add: after_config_def)
    ultimately show "main w = (Inl AssertionError, [])" by simp
  qed
  have alert: "\<forall>c m. started w c \<and> cfg_recentTrend c \<le> cfg_recentPeak c
          \<and> detected w c = Inr m \<and> m \<noteq> []
        \<longrightarrow> fst (main w)
              = Inr (if post w (cfg_telegramBotId c) (cfg_telegramChatId c) m = Inr 200
                     then 0 else - 1)
          \<and> filter is_post (snd (main w))
              = [Post (cfg_telegramBotId c) (cfg_telegramChatId c) m]"
    using main_started [of w] after_config_alert [of _ w] by metis
  have quiet: "\<forall>c. started w c \<and> cfg_recentTrend c \<le> cfg_recentPeak c
          \<and> detected w c = Inr [] \<and> probe w = Inr True
        \<longrightarrow> fst (main w) = Inr 0 \<and> filter is_post (snd (main w)) = []"
    using main_started [of w] after_config_quiet [of _ w] by metis
  have outage: "\<forall>c. started w c \<and> cfg_recentTrend c \<le> cfg_recentPeak c
          \<and> detected w c = Inr [] \<and> probe w \<noteq> Inr True
        \<longrightarrow> fst (main w) = Inr (- 1) \<and> length (filter is_post (snd (main w))) = 1"
    using main_started [of w] after_config_outage [of _ w] by metis
  show ?thesis using no_file no_log bad alert quiet outage by blast
qed

theorem main_return_value_witness:
  "main world_no_config = (Inr (- 1), [Print])
   \<and> main world_no_log = (Inr (- 1), [Print])
   \<and> main world_bad_windows = (Inl AssertionError, [])
   \<and> fst (main sample_world) = Inr 0
   \<and> fst (main world_send_fails) = Inr (- 1)
   \<and> length (filter is_post (snd (main world_send_fails))) = 1
   \<and> fst (main world_quiet) = Inr 0
   \<and> filter is_post (snd (main world_quiet)) = []
   \<and> fst (main world_outage) = Inr (- 1)
   \<and> length (filter is_post (snd (main world_outage))) = 1"
proof -
  let ?quiet = "sample_config \<lparr> cfg_percentDropped := 50 \<rparr>"
  let ?bad = "sample_config \<lparr> cfg_recentPeak := 3, cfg_recentTrend := 5 \<rparr>"
  let ?msg = "''TICKER dropped 20.0%'' @ [CHR 0x0A] @ ''DIP dropped 22.5%'' @ [CHR 0x0A]"
  have f1: "config_file world_no_config = Inl (OtherError ''FileNotFoundError'')"
    by (simp add: world_defs sample_world_def)
  have f2: "config_file world_no_log = Inr sample_config \<and> cfg_loggingEnabled sample_config
      \<and> logging_setup world_no_log (cfg_logFileName sample_config)
          = Inl (OtherError ''PermissionError'')"
    by (simp add: world_defs sample_world_def sample_config_def)
  have f3: "started world_bad_windows ?bad \<and> cfg_recentPeak ?bad < cfg_recentTrend ?bad"
    by (simp add: started_def world_defs sample_world_def sample_config_def)
  have d4: "detected sample_world sample_config = Inr ?msg"
    by (simp add: detected_def run_defs)
  have f4: "started sample_world sample_config
      \<and> cfg_recentTrend sample_config \<le> cfg_recentPeak sample_config
      \<and> detected sample_world sample_config = Inr ?msg \<and> ?msg \<noteq> []"
    using d4 by (simp add: started_def sample_world_def sample_config_def)
  have d5: "detected world_send_fails sample_config = Inr ?msg"
    by (simp add: detected_def run_defs world_defs)
  have f5: "started world_send_fails sample_config
      \<and> cfg_recentTrend sample_config \<le> cfg_recentPeak sample_config
      \<and> detected world_send_fails sample_config = Inr ?msg \<and> ?msg \<noteq> []"
    using d5 by (simp add: started_def world_defs sample_world_def sample_config_def)
  have d6: "detected world_quiet ?quiet = Inr []"
    by (simp add: detected_def run_defs world_defs)
  have f6: "started world_quiet ?quiet \<and> cfg_recentTrend ?quiet \<le> cfg_recentPeak ?quiet
      \<and> detected world_quiet ?quiet = Inr [] \<and> probe world_quiet = Inr True"
    using d6 by (simp add: started_def world_defs sample_world_def sample_config_def)
  have d7: "detected world_outage ?quiet = Inr []"
    by (simp add: detected_def run_defs world_defs)
  have f7: "started world_outage ?quiet \<and> cfg_recentTrend ?quiet \<le> cfg_recentPeak ?quiet
      \<and> detected world_outage ?quiet = Inr [] \<and> probe world_outage \<noteq> Inr True"
    using d7 by (simp add: started_def world_defs sample_world_def sample_config_def)
  have p4: "post sample_world (cfg_telegramBotId sample_config)
      (cfg_telegramChatId sample_config) ?msg = Inr 200"
    by (simp add: sample_world_def)
  have p5: "post world_send_fails (cfg_telegramBotId sample_config)
      (cfg_telegramChatId sample_config) ?msg = Inr 500"
    by (simp add: world_defs sample_world_def)
  note clauses = main_return_value
  have r1: "main world_no_config = (Inr (- 1), [Print])"
    using f1 by (rule clauses [THEN conjunct1, rule_format])
  have r2: "main world_no_log = (Inr (- 1), [Print])"
    using f2 by (rule clauses [THEN conjunct2, THEN conjunct1, rule_format])
  have r3: "main world_bad_windows = (Inl AssertionError, [])"
    using f3 by (rule clauses [THEN conjunct2, THEN conjunct2, THEN conjunct1, rule_format])
  have r4: "fst (main sample_world)
        = Inr (if post sample_world (cfg_telegramBotId sample_config)
                 (cfg_telegramChatId sample_config) ?msg = Inr 200 then 0 else - 1)
      \<and> filter is_post (snd (main sample_world))
        = [Post (cfg_telegramBotId sample_config) (cfg_telegramChatId sample_config) ?msg]"
    using f4
    by (rule clauses [THEN conjunct2, THEN conjunct2, THEN conjunct2, THEN conjunct1,
          rule_format])
  have r5: "fst (main world_send_fails)
        = Inr (if post world_send_fails (cfg_telegramBotId sample_config)
                 (cfg_telegramChatId sample_config) ?msg = Inr 200 then 0 else - 1)
      \<and> filter is_post (snd (main world_send_fails))
        = [Post (cfg_telegramBotId sample_config) (cfg_telegramChatId sample_config) ?msg]"
    using f5
    by (rule clauses [THEN conjunct2, THEN conjunct2, THEN conjunct2, THEN conjunct1,
          rule_format])
  have r6: "fst (main world_quiet) = Inr 0 \<and> filter is_post (snd (main world_quiet)) = []"
    using f6
    by (rule clauses [THEN conjunct2, THEN conjunct2, THEN conjunct2, THEN conjunct2,
          THEN conjunct1, rule_format])
  have r7: "fst (main world_outage) = Inr (- 1)
      \<and> length (filter is_post (snd (main world_outage))) = 1"
    using f7
    by (rule clauses [THEN conjunct2, THEN conjunct2, THEN conjunct2, THEN conjunct2,
          THEN conjunct2, rule_format])
  have s4: "fst (main sample_world) = Inr 0" using r4 p4 by simp
  have s5: "fst (main world_send_fails) = Inr (- 1)
      \<and> length (filter is_post (snd (main world_send_fails))) = 1"
    using r5 p5 by simp
  show ?thesis using r1 r2 r3 s4 s5 r6 r7 by simp
qed

text \<open>
  C7, as stated, fails. On a configuration with \<open>recentPeak < recentTrend\<close> the run
  does not end with \<open>-1\<close>: the assertion raises, and the process ends with the status
  of an uncaught exception. And when the alert cannot be sent, \<open>main\<close> returns
  \<open>-1\<close> but the process ends with status 0.
\<close>

theorem exit_code_not_minus_one:
  "cfg_recentPeak (sample_config \<lparr> cfg_recentPeak := 3, cfg_recentTrend := 5 \<rparr>)
     < cfg_recentTrend (sample_config \<lparr> cfg_recentPeak := 3, cfg_recentTrend := 5 \<rparr>)
   \<and> config_file world_bad_windows
       = Inr (sample_config \<lparr> cfg_recentPeak := 3, cfg_recentTrend := 5 \<rparr>)
   \<and> fst (main world_bad_windows) = Inl AssertionError
   \<and> exit_status world_bad_windows = 1
   \<and> post world_send_fails ''bot'' ''chat''
         (''TICKER dropped 20.0%'' @ [CHR 0x0A] @ ''DIP dropped 22.5%'' @ [CHR 0x0A]) = Inr 500
   \<and> fst (main world_send_fails) = Inr (- 1)
   \<and> exit_status world_send_fails = 0"
  by (simp add: run_defs world_defs)

end
